theory Spec2Isabelle
  imports Main "HOL-Library.Word"
begin

unbundle bit_operations_syntax

section \<open>Suggestion kinds (autocomplete.cpp, lines 18-40)\<close>

text \<open>
  \<^verbatim>\<open>enum SymType : uint8_t { function = 1, variable = 2, channel = 4, type = 8,
  process = 16, unknown = 32 }\<close>.  The enumerators are capitalised here because
  \<open>function\<close> is a command of Isabelle; \<open>sym_bits\<close> gives each enumerator its value
  in the underlying type \<open>uint8_t\<close>.
\<close>

datatype SymType = Function | Variable | Channel | Type | Process | Unknown

fun sym_bits :: "SymType \<Rightarrow> 8 word" where
  "sym_bits Function = 1"
| "sym_bits Variable = 2"
| "sym_bits Channel = 4"
| "sym_bits Type = 8"
| "sym_bits Process = 16"
| "sym_bits Unknown = 32"

text \<open>\<^verbatim>\<open>struct Suggestion { std::string name; SymType type; }\<close>\<close>

datatype Suggestion = Suggestion (name: string) (type: SymType)

section \<open>The handles of the UTAP library\<close>

text \<open>
  \<open>UTAP::type_t\<close>, \<open>UTAP::symbol_t\<close> and \<open>UTAP::template_t\<close> belong to the external
  UTAP library.  A handle is represented by what the resolver observes of it, and the
  observations are kept independent of one another, so that every result below holds
  whatever the library answers:
  \<^item> \<open>get_kind\<close> is \<^verbatim>\<open>type.get_kind()\<close>, and \<open>is_kinds\<close> lists the kinds \<open>k\<close> for which
    \<^verbatim>\<open>type.is(k)\<close> holds (\<open>is_kind t k\<close> below, \<open>is\<close> being a keyword of Isabelle);
  \<^item> \<open>preds\<close> lists the predicates (\<^verbatim>\<open>is_channel()\<close>, \<^verbatim>\<open>is_clock()\<close>, ...) that hold;
  \<^item> \<open>children\<close> lists the pairs of \<^verbatim>\<open>get_label(i)\<close> and \<^verbatim>\<open>get(i)\<close>, for \<open>i\<close> below
    \<^verbatim>\<open>size()\<close>.
\<close>

datatype kind_t = RECORD | TYPEDEF | INSTANCE | OTHER_KIND nat

datatype type_pred =
  IS_CHANNEL | IS_CLOCK | IS_INTEGRAL | IS_DOUBLE | IS_STRING | IS_RECORD
  | IS_FUNCTION | IS_FUNCTION_EXTERNAL | IS_ARRAY

datatype type_t =
  type_t (get_kind: kind_t) (is_kinds: "kind_t list") (preds: "type_pred list")
    (children: "(string \<times> type_t) list")

definition is_kind :: "type_t \<Rightarrow> kind_t \<Rightarrow> bool" where
  "is_kind t k = (k \<in> set (is_kinds t))"

definition is_channel :: "type_t \<Rightarrow> bool" where
  "is_channel t = (IS_CHANNEL \<in> set (preds t))"

definition is_clock :: "type_t \<Rightarrow> bool" where
  "is_clock t = (IS_CLOCK \<in> set (preds t))"

definition is_integral :: "type_t \<Rightarrow> bool" where
  "is_integral t = (IS_INTEGRAL \<in> set (preds t))"

definition is_double :: "type_t \<Rightarrow> bool" where
  "is_double t = (IS_DOUBLE \<in> set (preds t))"

definition is_string :: "type_t \<Rightarrow> bool" where
  "is_string t = (IS_STRING \<in> set (preds t))"

definition is_record :: "type_t \<Rightarrow> bool" where
  "is_record t = (IS_RECORD \<in> set (preds t))"

definition is_function :: "type_t \<Rightarrow> bool" where
  "is_function t = (IS_FUNCTION \<in> set (preds t))"

definition is_function_external :: "type_t \<Rightarrow> bool" where
  "is_function_external t = (IS_FUNCTION_EXTERNAL \<in> set (preds t))"

definition is_array :: "type_t \<Rightarrow> bool" where
  "is_array t = (IS_ARRAY \<in> set (preds t))"

definition size_t :: "type_t \<Rightarrow> nat" where
  "size_t t = length (children t)"

text \<open>
  The failures of a request: \<open>OutOfRange\<close> is the failed \<^verbatim>\<open>assert(i < size())\<close> of
  \<^verbatim>\<open>type_t::get(i)\<close>, and \<open>NavigateError\<close> is a failure of \<^verbatim>\<open>navigate_xpath\<close>, with the
  text of its message.
\<close>

datatype error = OutOfRange | NavigateError string

definition get :: "type_t \<Rightarrow> nat \<Rightarrow> error + type_t" where
  "get t i = (if i < size_t t then Inr (snd (children t ! i)) else Inl OutOfRange)"

definition get_label :: "type_t \<Rightarrow> nat \<Rightarrow> error + string" where
  "get_label t i = (if i < size_t t then Inr (fst (children t ! i)) else Inl OutOfRange)"

datatype symbol_t = symbol_t (get_name: string) (get_type: type_t) (get_frame: nat)

text \<open>
  Of \<open>UTAP::variable_t\<close>, \<open>UTAP::function_t\<close> and \<open>UTAP::location_t\<close> the resolver reads
  \<^verbatim>\<open>uid\<close> only, so each of them is represented by its \<^verbatim>\<open>uid\<close>, a symbol.  The member
  \<^verbatim>\<open>functions\<close> of a template is \<open>functions'\<close> here, \<open>functions\<close> being a keyword of Isabelle.
\<close>

record template_t =
  variables :: "symbol_t list"
  functions' :: "symbol_t list"
  locations :: "symbol_t list"

datatype UtapEntity = EntitySymbol symbol_t | EntityType type_t

record TextRange =
  begOffset :: nat
  endOffset :: nat

record declarations_t =
  frame :: nat

section \<open>The kind classifier (lines 21-34)\<close>

function sym_type :: "type_t \<Rightarrow> error + SymType" where
  "sym_type t =
     (if is_channel t then Inr Channel
      else if is_clock t \<or> is_integral t \<or> is_double t \<or> is_string t \<or> is_record t
        then Inr Variable
      else if is_kind t TYPEDEF then Inr Type
      else if is_function t \<or> is_function_external t then Inr Function
      else if is_array t then
        (case get t 0 of Inl e \<Rightarrow> Inl e | Inr c \<Rightarrow> sym_type c)
      else Inr Unknown)"
  by pat_completeness auto
termination
proof (relation "measure size")
  show "wf (measure (size :: type_t \<Rightarrow> nat))" by simp
next
  fix t c :: type_t
  assume g: "get t 0 = Inr c"
  obtain k ks ps cs where t: "t = type_t k ks ps cs" by (cases t)
  from g t obtain l rest where "cs = (l, c) # rest"
    by (cases cs) (auto simp: get_def size_t_def split: if_splits)
  with t show "(c, t) \<in> measure size" by simp
qed

section \<open>The static vocabularies (lines 42-96)\<close>

definition guard_items :: "Suggestion list" where
  "guard_items = [Suggestion ''true'' Unknown, Suggestion ''false'' Unknown]"

definition queries_items :: "Suggestion list" where
  "queries_items =
     [Suggestion ''int'' Type, Suggestion ''true'' Unknown, Suggestion ''false'' Unknown,
      Suggestion ''forall'' Unknown, Suggestion ''exists'' Unknown]"

definition parameter_items :: "Suggestion list" where
  "parameter_items =
     [Suggestion ''int'' Type, Suggestion ''double'' Type, Suggestion ''clock'' Type,
      Suggestion ''chan'' Type, Suggestion ''bool'' Type, Suggestion ''broadcast'' Unknown,
      Suggestion ''const'' Unknown, Suggestion ''urgent'' Unknown]"

definition default_items :: "Suggestion list" where
  "default_items =
     [Suggestion ''int'' Type, Suggestion ''double'' Type, Suggestion ''clock'' Type,
      Suggestion ''chan'' Type, Suggestion ''bool'' Type, Suggestion ''broadcast'' Unknown,
      Suggestion ''const'' Unknown, Suggestion ''urgent'' Unknown,
      Suggestion ''void'' Unknown, Suggestion ''meta'' Unknown, Suggestion ''true'' Unknown,
      Suggestion ''false'' Unknown, Suggestion ''forall'' Unknown,
      Suggestion ''exists'' Unknown, Suggestion ''return'' Unknown,
      Suggestion ''typedef'' Unknown, Suggestion ''struct'' Unknown]"

definition builtin_functions :: "Suggestion list" where
  "builtin_functions = map (\<lambda>n. Suggestion n Function)
     [''abs'', ''fabs'', ''fmod'', ''fma'', ''fmax'', ''fmin'', ''exp'', ''exp2'', ''expm1'',
      ''ln'', ''log'', ''log10'', ''log2'', ''log1p'', ''pow'', ''sqrt'', ''cbrt'', ''hypot'',
      ''sin'', ''cos'', ''tan'', ''asin'', ''acos'', ''atan'', ''atan2'', ''sinh'', ''cosh'',
      ''tanh'', ''asinh'', ''acosh'', ''atanh'', ''erf'', ''erfc'', ''tgamma'', ''lgamma'',
      ''ceil'', ''floor'', ''trunc'', ''round'', ''fint'', ''ldexp'', ''ilogb'', ''logb'',
      ''nextafter'', ''copysign'', ''signbit'', ''random'', ''random_normal'',
      ''random_poisson'', ''random_arcsine'', ''random_beta'', ''random_gamma'', ''tri'',
      ''random_weibull'']"

section \<open>Strings\<close>

text \<open>
  \<^verbatim>\<open>s.ends_with(x)\<close>; \<^verbatim>\<open>s.find_last_of(c)\<close>, where \<open>None\<close> is \<^verbatim>\<open>std::string::npos\<close>;
  \<^verbatim>\<open>s.substr(pos, n)\<close> and \<^verbatim>\<open>s.substr(pos)\<close>, which throw \<^verbatim>\<open>std::out_of_range\<close> when
  \<open>pos\<close> is beyond the size of \<open>s\<close>.
\<close>

definition ends_with :: "string \<Rightarrow> string \<Rightarrow> bool" where
  "ends_with s x = (length x \<le> length s \<and> drop (length s - length x) s = x)"

fun find_last_of :: "string \<Rightarrow> char \<Rightarrow> nat option" where
  "find_last_of [] c = None"
| "find_last_of (x # xs) c =
     (case find_last_of xs c of
        Some i \<Rightarrow> Some (Suc i)
      | None \<Rightarrow> if x = c then Some 0 else None)"

definition substr :: "string \<Rightarrow> nat \<Rightarrow> nat \<Rightarrow> error + string" where
  "substr s pos n = (if pos \<le> length s then Inr (take n (drop pos s)) else Inl OutOfRange)"

definition substr_from :: "string \<Rightarrow> nat \<Rightarrow> error + string" where
  "substr_from s pos = (if pos \<le> length s then Inr (drop pos s) else Inl OutOfRange)"

text \<open>
  The literal \<^verbatim>\<open>"label[@kind=\"k\"]"\<close> of the source, for a label kind \<open>k\<close>; the double
  quote is the character 0x22.
\<close>

definition label_kind :: "string \<Rightarrow> string" where
  "label_kind k = ''label[@kind='' @ [CHR 0x22] @ k @ [CHR 0x22] @ '']''"

section \<open>Symbol predicates (lines 128-141)\<close>

text \<open>
  \<^verbatim>\<open>sym.get_type().size() == 1 && sym.get_type().get(0).is(RECORD)\<close>: \<^verbatim>\<open>get(0)\<close> is
  evaluated only when the size is 1, where it is in range.
\<close>

definition is_struct :: "symbol_t \<Rightarrow> bool" where
  "is_struct symb =
     (size_t (get_type symb) = 1 \<and>
      (case get (get_type symb) 0 of Inl e \<Rightarrow> False | Inr c \<Rightarrow> is_kind c RECORD))"

definition is_template :: "symbol_t \<Rightarrow> bool" where
  "is_template symb = is_kind (get_type symb) INSTANCE"

text \<open>\<^verbatim>\<open>std::isdigit\<close> on an \<^verbatim>\<open>unsigned char\<close>: the ten decimal digits.\<close>

definition is_digit :: "char \<Rightarrow> bool" where
  "is_digit c = (c \<in> set ''0123456789'')"

text \<open>
  \<^verbatim>\<open>name.substr(0, 3) == "_id" && ranges::all_of(name.substr(3), is_digit)\<close>: the second
  operand is evaluated only when the first holds.
\<close>

definition is_name_autogenerated :: "string \<Rightarrow> error + bool" where
  "is_name_autogenerated nm =
     (case substr nm 0 3 of
        Inl e \<Rightarrow> Inl e
      | Inr p \<Rightarrow>
          if p = ''_id'' then
            (case substr_from nm 3 of Inl e \<Rightarrow> Inl e | Inr r \<Rightarrow> Inr (list_all is_digit r))
          else Inr False)"

section \<open>The result builder (lines 143-205)\<close>

record ResultBuilder =
  items :: "Suggestion list"
  prefix :: string
  type_filter_mask :: "8 word"

text \<open>
  \<^verbatim>\<open>ResultBuilder{}\<close>: the class has no constructor of its own, so the object is
  zero-initialised before its members are default-constructed.
\<close>

definition ResultBuilder_init :: ResultBuilder where
  "ResultBuilder_init = \<lparr>items = [], prefix = [], type_filter_mask = 0\<rparr>"

definition type_check :: "8 word \<Rightarrow> Suggestion \<Rightarrow> bool" where
  "type_check flt s = (flt AND sym_bits (type s) = 0)"

text \<open>The fold over the containers of \<^verbatim>\<open>add_items\<close>, from left to right.\<close>

fun add_items :: "Suggestion list list \<Rightarrow> ResultBuilder \<Rightarrow> ResultBuilder" where
  "add_items [] rb = rb"
| "add_items (container # others) rb =
     add_items others
       (rb\<lparr>items := items rb @ filter (type_check (type_filter_mask rb)) container\<rparr>)"

definition set_ignored_mask :: "8 word \<Rightarrow> ResultBuilder \<Rightarrow> ResultBuilder" where
  "set_ignored_mask ignore_mask rb = rb\<lparr>type_filter_mask := ignore_mask\<rparr>"

definition add_defaults :: "string \<Rightarrow> ResultBuilder \<Rightarrow> ResultBuilder" where
  "add_defaults xp rb =
     (if ends_with xp ''/queries!'' then add_items [queries_items, builtin_functions] rb
      else if ends_with xp ''/parameter!'' then add_items [parameter_items] rb
      else if ends_with xp (label_kind ''guard'') then
        add_items [guard_items, builtin_functions] rb
      else add_items [default_items, builtin_functions] rb)"

definition set_prefix :: "string \<Rightarrow> ResultBuilder \<Rightarrow> ResultBuilder" where
  "set_prefix new_prefix rb = rb\<lparr>prefix := new_prefix\<rparr>"

definition add_item :: "string \<Rightarrow> SymType \<Rightarrow> ResultBuilder \<Rightarrow> ResultBuilder" where
  "add_item item ty rb =
     (if type_filter_mask rb AND sym_bits ty = 0
      then rb\<lparr>items := items rb @ [Suggestion item ty]\<rparr> else rb)"

text \<open>The loop \<^verbatim>\<open>for (size_t i = 0; i < type.size(); i++)\<close> of \<^verbatim>\<open>add_struct\<close>, from \<open>i\<close> on.\<close>

function add_struct_labels :: "type_t \<Rightarrow> nat \<Rightarrow> ResultBuilder \<Rightarrow> error + ResultBuilder" where
  "add_struct_labels t i rb =
     (if i < size_t t then
        (case get_label t i of
           Inl e \<Rightarrow> Inl e
         | Inr l \<Rightarrow> add_struct_labels t (i + 1) (add_item (prefix rb @ l) Variable rb))
      else Inr rb)"
  by pat_completeness auto
termination
  by (relation "measure (\<lambda>(t, i, rb). size_t t - i)") auto

function add_struct :: "type_t \<Rightarrow> ResultBuilder \<Rightarrow> error + ResultBuilder" where
  "add_struct t rb =
     (if size_t t = 0 then Inr rb
      else if get_kind t \<noteq> RECORD then
        (case get t 0 of Inl e \<Rightarrow> Inl e | Inr c \<Rightarrow> add_struct c rb)
      else add_struct_labels t 0 rb)"
  by pat_completeness auto
termination
proof (relation "measure (\<lambda>(t, rb). size t)")
  show "wf (measure (\<lambda>(t :: type_t, rb :: ResultBuilder). size t))" by simp
next
  fix t c :: type_t and rb :: ResultBuilder
  assume g: "get t 0 = Inr c"
  obtain k ks ps cs where t: "t = type_t k ks ps cs" by (cases t)
  from g t obtain l rest where "cs = (l, c) # rest"
    by (cases cs) (auto simp: get_def size_t_def split: if_splits)
  with t show "((c, rb), (t, rb)) \<in> measure (\<lambda>(t, rb). size t)" by simp
qed

text \<open>The third loop of \<^verbatim>\<open>add_template\<close>, over the locations.\<close>

fun add_locations :: "symbol_t list \<Rightarrow> ResultBuilder \<Rightarrow> error + ResultBuilder" where
  "add_locations [] rb = Inr rb"
| "add_locations (loc # others) rb =
     (case is_name_autogenerated (get_name loc) of
        Inl e \<Rightarrow> Inl e
      | Inr True \<Rightarrow> add_locations others rb
      | Inr False \<Rightarrow> add_locations others (add_item (prefix rb @ get_name loc) Unknown rb))"

definition add_template :: "template_t \<Rightarrow> ResultBuilder \<Rightarrow> error + ResultBuilder" where
  "add_template templ rb =
     (let rb1 = fold (\<lambda>var r. add_item (prefix r @ get_name var) Variable r) (variables templ) rb;
          rb2 = fold (\<lambda>func r. add_item (prefix r @ get_name func) Function r) (functions' templ) rb1
      in add_locations (locations templ) rb2)"

definition get_items :: "ResultBuilder \<Rightarrow> Suggestion list" where
  "get_items rb = items rb"

section \<open>The autocomplete command (lines 207-262)\<close>

text \<open>
  \<^verbatim>\<open>struct Identifier\<close> of \<^verbatim>\<open>uls/common_data.h\<close>: the request.  Its member \<^verbatim>\<open>identifier\<close>
  is \<open>identifier'\<close> here, \<open>identifier\<close> being a keyword of Isabelle.
\<close>

record Identifier =
  xpath :: string
  offset :: nat
  identifier' :: string

text \<open>
  Modelled from the spec: the functions of \<^verbatim>\<open>uls/declarations.h\<close> and
  \<^verbatim>\<open>uls/utap_extension.h\<close> that the command calls on the document
  (\<^verbatim>\<open>navigate_xpath\<close>, \<^verbatim>\<open>find_declaration\<close>, \<^verbatim>\<open>find_process\<close> and
  \<^verbatim>\<open>DeclarationsWalker::visit_symbols\<close>) are declared there and defined elsewhere.  They
  are the parameters of the command, with the document they read:
  \<^item> \<open>navigate_xpath\<close> resolves the xpath and the offset to a declarations block, or fails
    when the xpath cannot be navigated (it returns a reference, so a failure is an
    exception);
  \<^item> \<open>find_declaration\<close> resolves a dotted name in a declarations block to a symbol or a
    type, or to nothing;
  \<^item> \<open>find_process\<close> finds the template of a name, or nothing;
  \<^item> \<open>walk\<close> lists, in the order of the visit, the symbols that \<^verbatim>\<open>visit_symbols\<close> hands to
    its callback from a declarations block and its enclosing ones, each with its range.
\<close>

record ast_service =
  navigate_xpath :: "string \<Rightarrow> nat \<Rightarrow> error + declarations_t"
  find_declaration :: "declarations_t \<Rightarrow> string \<Rightarrow> UtapEntity option"
  find_process :: "string \<Rightarrow> template_t option"
  walk :: "declarations_t \<Rightarrow> (symbol_t \<times> TextRange) list"

text \<open>
  Modelled from the spec: \<^verbatim>\<open>DeclarationsWalker::visit_symbols\<close> calls the callback on every
  visited symbol that has a range, in turn.  The callback of the command answers false at
  every symbol; a true answer, of which the spec says nothing, is taken to end the visit.
\<close>

fun visit_symbols ::
  "(symbol_t \<times> TextRange) list \<Rightarrow>
   (symbol_t \<Rightarrow> TextRange \<Rightarrow> ResultBuilder \<Rightarrow> error + bool \<times> ResultBuilder) \<Rightarrow>
   ResultBuilder \<Rightarrow> error + ResultBuilder" where
  "visit_symbols [] callback rb = Inr rb"
| "visit_symbols ((symb, rng) # others) callback rb =
     (case callback symb rng rb of
        Inl e \<Rightarrow> Inl e
      | Inr (stop, rb') \<Rightarrow> if stop then Inr rb' else visit_symbols others callback rb')"

text \<open>Lines 212-225: the mask of ignored kinds, from the suffix of the xpath.\<close>

definition configure_mask :: "string \<Rightarrow> ResultBuilder \<Rightarrow> ResultBuilder" where
  "configure_mask xp results =
     (if ends_with xp ''/parameter!'' then set_ignored_mask (NOT (sym_bits Type)) results
      else if ends_with xp (label_kind ''invariant'') then
        set_ignored_mask (NOT (sym_bits Variable OR sym_bits Function)) results
      else if ends_with xp (label_kind ''exponentialrate'') then
        set_ignored_mask (NOT (sym_bits Variable)) results
      else if ends_with xp (label_kind ''select'') then
        set_ignored_mask (NOT (sym_bits Type)) results
      else if ends_with xp (label_kind ''guard'') then
        set_ignored_mask (NOT (sym_bits Variable OR sym_bits Function)) results
      else if ends_with xp (label_kind ''synchronisation'') then
        set_ignored_mask (NOT (sym_bits Channel)) results
      else if ends_with xp (label_kind ''assignment'') then
        set_ignored_mask (NOT (sym_bits Variable OR sym_bits Function)) results
      else results)"

text \<open>Lines 235-243: the visit of the entity that the head of a dotted identifier names.\<close>

definition visit_entity ::
  "ast_service \<Rightarrow> bool \<Rightarrow> UtapEntity \<Rightarrow> ResultBuilder \<Rightarrow> error + ResultBuilder" where
  "visit_entity svc is_query entity results =
     (case entity of
        EntitySymbol symb \<Rightarrow>
          if is_template symb \<and> is_query then
            (case find_process svc (get_name symb) of
               None \<Rightarrow> Inr results
             | Some process \<Rightarrow> add_template process results)
          else if is_struct symb then
            (case get (get_type symb) 0 of
               Inl e \<Rightarrow> Inl e
             | Inr c \<Rightarrow> add_struct c results)
          else Inr results
      | EntityType ty \<Rightarrow> add_struct ty results)"

text \<open>Lines 248-257: the callback of the walk; its answer is always false.\<close>

definition visit_callback ::
  "Identifier \<Rightarrow> declarations_t \<Rightarrow> bool \<Rightarrow> symbol_t \<Rightarrow> TextRange \<Rightarrow> ResultBuilder \<Rightarrow>
   error + bool \<times> ResultBuilder" where
  "visit_callback req decls use_templates symb rng results =
     (let is_symbol_visible = (get_frame symb \<noteq> frame decls \<or> begOffset rng < offset req)
      in if is_symbol_visible then
           if \<not> is_template symb then
             (case sym_type (get_type symb) of
                Inl e \<Rightarrow> Inl e
              | Inr ty \<Rightarrow> Inr (False, add_item (get_name symb) ty results))
           else if use_templates then Inr (False, add_item (get_name symb) Process results)
           else Inr (False, results)
         else Inr (False, results))"

definition autocomplete :: "ast_service \<Rightarrow> Identifier \<Rightarrow> error + Suggestion list" where
  "autocomplete svc req =
     (let results = configure_mask (xpath req) ResultBuilder_init;
          is_query = (xpath req = ''/nta/queries!'')
      in case navigate_xpath svc (xpath req) (offset req) of
           Inl e \<Rightarrow> Inl e
         | Inr decls \<Rightarrow>
             (case find_last_of (identifier' req) CHR ''.'' of
                Some off \<Rightarrow>
                  (case substr (identifier' req) 0 off of
                     Inl e \<Rightarrow> Inl e
                   | Inr head \<Rightarrow>
                       (case find_declaration svc decls head of
                          None \<Rightarrow> Inr (get_items results)
                        | Some entity \<Rightarrow>
                            (case substr (identifier' req) 0 (off + 1) of
                               Inl e \<Rightarrow> Inl e
                             | Inr new_prefix \<Rightarrow>
                                 (case visit_entity svc is_query entity
                                         (set_prefix new_prefix results) of
                                    Inl e \<Rightarrow> Inl e
                                  | Inr r \<Rightarrow> Inr (get_items r)))))
              | None \<Rightarrow>
                  (let results' = add_defaults (xpath req) results;
                       use_templates = (is_query \<or> xpath req = ''/nta/system!'')
                   in case visit_symbols (walk svc decls)
                             (visit_callback req decls use_templates) results' of
                        Inl e \<Rightarrow> Inl e
                      | Inr r \<Rightarrow> Inr (get_items r))))"

section \<open>The pattern of generated names in the specification\<close>

text \<open>
  The specification's pattern for generated location names, \<^verbatim>\<open>_id[0-9]+\<close>: \<^verbatim>\<open>_id\<close>
  followed by one or more decimal digits.  It is compared with \<open>is_name_autogenerated\<close>
  below.
\<close>

definition matches_id_digits :: "string \<Rightarrow> bool" where
  "matches_id_digits nm =
     (take 3 nm = ''_id'' \<and> drop 3 nm \<noteq> [] \<and> list_all is_digit (drop 3 nm))"

section \<open>Notions for the statements\<close>

text \<open>\<^verbatim>\<open>s.starts_with(p)\<close>: the string \<open>s\<close> begins with \<open>p\<close>.\<close>

definition starts_with :: "string \<Rightarrow> string \<Rightarrow> bool" where
  "starts_with s p = (take (length p) s = p)"

text \<open>
  A builder \<open>rb'\<close> grows from a builder \<open>rb\<close> when it has the prefix and the mask of \<open>rb\<close>
  and its items are those of \<open>rb\<close> followed by new ones, each of which passes the mask
  and satisfies \<open>Q\<close>.
\<close>

definition grows :: "(Suggestion \<Rightarrow> bool) \<Rightarrow> ResultBuilder \<Rightarrow> ResultBuilder \<Rightarrow> bool" where
  "grows Q rb rb' =
     (prefix rb' = prefix rb \<and> type_filter_mask rb' = type_filter_mask rb \<and>
      (\<exists>new. items rb' = items rb @ new \<and>
         list_all (\<lambda>s. type_check (type_filter_mask rb) s \<and> Q s) new))"

section \<open>A document to evaluate requests on\<close>

text \<open>
  The global declarations (frame 0) are \<^verbatim>\<open>int x; chan c; typedef int T; void f();
  int _id7[2];\<close> and the process \<^verbatim>\<open>P\<close>; a template (frame 1) declares \<^verbatim>\<open>int y; int z;\<close>.
  The name \<^verbatim>\<open>s\<close> resolves to a record \<^verbatim>\<open>{a, b}\<close>, and the template of \<^verbatim>\<open>P\<close> has the variables
  \<^verbatim>\<open>y\<close> and \<^verbatim>\<open>_id0\<close>, the function \<^verbatim>\<open>g\<close> and the locations \<^verbatim>\<open>_id0\<close>, \<^verbatim>\<open>Idle\<close> and
  \<^verbatim>\<open>_id\<close>.  An xpath below \<^verbatim>\<open>/nta/template\<close> is navigated to the template's block, another
  one below \<^verbatim>\<open>/nta/\<close> to the global block, and no other xpath can be navigated.
\<close>

definition int_type :: type_t where
  "int_type = type_t (OTHER_KIND 0) [] [IS_INTEGRAL] []"

definition example_globals :: "(symbol_t \<times> TextRange) list" where
  "example_globals =
     [(symbol_t ''x'' int_type 0, \<lparr>begOffset = 4, endOffset = 5\<rparr>),
      (symbol_t ''c'' (type_t (OTHER_KIND 1) [] [IS_CHANNEL] []) 0,
         \<lparr>begOffset = 12, endOffset = 13\<rparr>),
      (symbol_t ''T'' (type_t TYPEDEF [TYPEDEF] [] [(''T'', int_type)]) 0,
         \<lparr>begOffset = 27, endOffset = 28\<rparr>),
      (symbol_t ''f'' (type_t (OTHER_KIND 2) [] [IS_FUNCTION] []) 0,
         \<lparr>begOffset = 35, endOffset = 36\<rparr>),
      (symbol_t ''_id7'' (type_t (OTHER_KIND 3) [] [IS_ARRAY] [([], int_type), ([], int_type)]) 0,
         \<lparr>begOffset = 50, endOffset = 54\<rparr>),
      (symbol_t ''P'' (type_t INSTANCE [INSTANCE] [] []) 0,
         \<lparr>begOffset = 60, endOffset = 61\<rparr>)]"

definition example_locals :: "(symbol_t \<times> TextRange) list" where
  "example_locals =
     [(symbol_t ''y'' int_type 1, \<lparr>begOffset = 4, endOffset = 5\<rparr>),
      (symbol_t ''z'' int_type 1, \<lparr>begOffset = 11, endOffset = 12\<rparr>)]"

definition example_record :: symbol_t where
  "example_record =
     symbol_t ''s'' (type_t (OTHER_KIND 4) [RECORD] [IS_RECORD]
       [(''s'', type_t RECORD [RECORD] [IS_RECORD] [(''a'', int_type), (''b'', int_type)])]) 0"

definition example_template :: template_t where
  "example_template =
     \<lparr>variables = [symbol_t ''y'' int_type 1, symbol_t ''_id0'' int_type 1],
      functions' = [symbol_t ''g'' (type_t (OTHER_KIND 2) [] [IS_FUNCTION] []) 1],
      locations = [symbol_t ''_id0'' (type_t (OTHER_KIND 5) [] [] []) 1,
                   symbol_t ''Idle'' (type_t (OTHER_KIND 5) [] [] []) 1,
                   symbol_t ''_id'' (type_t (OTHER_KIND 5) [] [] []) 1]\<rparr>"

definition example_service :: ast_service where
  "example_service =
     \<lparr>navigate_xpath = (\<lambda>xp off.
         if take 13 xp = ''/nta/template'' then Inr \<lparr>frame = 1\<rparr>
         else if take 5 xp = ''/nta/'' then Inr \<lparr>frame = 0\<rparr>
         else Inl (NavigateError xp)),
      find_declaration = (\<lambda>decls nm.
         if nm = ''s'' then Some (EntitySymbol example_record)
         else if nm = ''P'' then Some (EntitySymbol (symbol_t ''P'' (type_t INSTANCE [INSTANCE] [] []) 0))
         else None),
      find_process = (\<lambda>nm. if nm = ''P'' then Some example_template else None),
      walk = (\<lambda>decls. (if frame decls = 1 then example_locals else []) @ example_globals)\<rparr>"

section \<open>Evaluation of the observations\<close>

lemmas type_preds =
  is_channel_def is_clock_def is_integral_def is_double_def is_string_def is_record_def
  is_kind_def is_function_def is_function_external_def is_array_def

lemmas example_defs =
  example_service_def example_globals_def example_locals_def example_record_def
  example_template_def int_type_def

declare add_struct.simps [simp del] add_struct_labels.simps [simp del] sym_type.simps [simp del]

lemmas autocomplete_eval =
  autocomplete_def configure_mask_def add_defaults_def visit_callback_def visit_entity_def
  add_template_def add_item_def set_prefix_def set_ignored_mask_def get_items_def
  ResultBuilder_init_def ends_with_def label_kind_def substr_def substr_from_def
  is_name_autogenerated_def is_digit_def is_struct_def is_template_def get_def get_label_def
  size_t_def type_check_def type_preds sym_type.simps add_struct.simps add_struct_labels.simps
  guard_items_def queries_items_def parameter_items_def default_items_def builtin_functions_def

lemma filter_type_check_0: "filter (type_check 0) xs = xs"
  by (simp add: type_check_def)

lemmas autocomplete_steps =
  autocomplete_def configure_mask_def add_defaults_def visit_callback_def visit_entity_def
  add_template_def add_item_def set_prefix_def set_ignored_mask_def get_items_def
  ResultBuilder_init_def ends_with_def label_kind_def substr_def substr_from_def
  is_name_autogenerated_def is_digit_def is_struct_def is_template_def get_def get_label_def
  size_t_def type_preds sym_type.simps add_struct.simps add_struct_labels.simps
  filter_type_check_0

section \<open>The mask of a request\<close>

lemma add_items_mask0:
  "type_filter_mask rb = 0 \<Longrightarrow>
   items (add_items cs rb) = items rb @ concat cs \<and> type_filter_mask (add_items cs rb) = 0"
  by (induction cs arbitrary: rb) (simp_all add: type_check_def)

text \<open>
  C1.  When the xpath of a request ends with none of the seven filtering suffixes, the
  builder of the request is the freshly constructed one: its mask is 0 and its prefix is
  empty, so \<open>add_item\<close> keeps a suggestion of any kind and \<open>add_items\<close> keeps every
  element of its containers.  The paths \<^verbatim>\<open>/nta/queries!\<close> and \<^verbatim>\<open>/nta/system!\<close> are such
  xpaths.
\<close>

theorem otherwise_mask_zero:
  assumes "\<not> ends_with xp ''/parameter!''"
    and "\<not> ends_with xp (label_kind ''invariant'')"
    and "\<not> ends_with xp (label_kind ''exponentialrate'')"
    and "\<not> ends_with xp (label_kind ''select'')"
    and "\<not> ends_with xp (label_kind ''guard'')"
    and "\<not> ends_with xp (label_kind ''synchronisation'')"
    and "\<not> ends_with xp (label_kind ''assignment'')"
  shows "type_filter_mask ResultBuilder_init = 0 \<and> prefix ResultBuilder_init = []
    \<and> type_filter_mask (configure_mask xp ResultBuilder_init) = 0
    \<and> items (add_item nm ty (configure_mask xp ResultBuilder_init)) = [Suggestion nm ty]
    \<and> items (add_items cs (configure_mask xp ResultBuilder_init)) = concat cs"
proof -
  from assms have c: "configure_mask xp ResultBuilder_init = ResultBuilder_init"
    by (simp add: configure_mask_def)
  have m: "type_filter_mask ResultBuilder_init = 0"
    by (simp add: ResultBuilder_init_def)
  have i: "items ResultBuilder_init = []"
    by (simp add: ResultBuilder_init_def)
  from m i have "items (add_items cs ResultBuilder_init) = concat cs"
    by (simp add: add_items_mask0)
  with c m i show ?thesis
    by (simp add: add_item_def) (simp add: ResultBuilder_init_def)
qed

theorem otherwise_mask_zero_witness:
  "type_filter_mask (configure_mask ''/nta/queries!'' ResultBuilder_init) = 0
   \<and> type_filter_mask (configure_mask ''/nta/system!'' ResultBuilder_init) = 0
   \<and> items (add_item ''P'' Process (configure_mask ''/nta/system!'' ResultBuilder_init))
       = [Suggestion ''P'' Process]"
proof -
  have q: "type_filter_mask (configure_mask ''/nta/queries!'' ResultBuilder_init) = 0"
    using otherwise_mask_zero [of "''/nta/queries!''"]
    by (simp add: ends_with_def label_kind_def)
  have s: "type_filter_mask (configure_mask ''/nta/system!'' ResultBuilder_init) = 0
      \<and> items (add_item ''P'' Process (configure_mask ''/nta/system!'' ResultBuilder_init))
       = [Suggestion ''P'' Process]"
    using otherwise_mask_zero [of "''/nta/system!''" "''P''" Process]
    by (simp add: ends_with_def label_kind_def)
  from q s show ?thesis by simp
qed

section \<open>The classifier\<close>

text \<open>
  C6.  The classifier tries its rules in order and the first that applies decides: a
  channel type is a channel; otherwise a clock, integral, floating, string or record type
  is a variable; otherwise a typedef is a type; otherwise a function or an external
  function is a function; otherwise an array type has the classification of its element
  type, the child 0; and anything else is unknown.
\<close>

theorem sym_type_first_match:
  "(is_channel t \<longrightarrow> sym_type t = Inr Channel)
   \<and> (\<not> is_channel t
        \<and> (is_clock t \<or> is_integral t \<or> is_double t \<or> is_string t \<or> is_record t)
      \<longrightarrow> sym_type t = Inr Variable)
   \<and> (\<not> is_channel t
        \<and> \<not> (is_clock t \<or> is_integral t \<or> is_double t \<or> is_string t \<or> is_record t)
        \<and> is_kind t TYPEDEF
      \<longrightarrow> sym_type t = Inr Type)
   \<and> (\<not> is_channel t
        \<and> \<not> (is_clock t \<or> is_integral t \<or> is_double t \<or> is_string t \<or> is_record t)
        \<and> \<not> is_kind t TYPEDEF
        \<and> (is_function t \<or> is_function_external t)
      \<longrightarrow> sym_type t = Inr Function)
   \<and> (\<not> is_channel t
        \<and> \<not> (is_clock t \<or> is_integral t \<or> is_double t \<or> is_string t \<or> is_record t)
        \<and> \<not> is_kind t TYPEDEF
        \<and> \<not> (is_function t \<or> is_function_external t)
        \<and> is_array t \<and> get t 0 = Inr element
      \<longrightarrow> sym_type t = sym_type element)
   \<and> (\<not> is_channel t
        \<and> \<not> (is_clock t \<or> is_integral t \<or> is_double t \<or> is_string t \<or> is_record t)
        \<and> \<not> is_kind t TYPEDEF
        \<and> \<not> (is_function t \<or> is_function_external t)
        \<and> \<not> is_array t
      \<longrightarrow> sym_type t = Inr Unknown)"
  by (intro conjI impI; subst sym_type.simps; simp)

text \<open>
  An array of arrays of channels that is also marked as a typedef: the array rule comes
  after the typedef rule, so the classification is that of a type, not of a channel.  An
  array of integers is a variable, as its element is.
\<close>

theorem sym_type_first_match_witness:
  "sym_type (type_t (OTHER_KIND 0) [] [IS_ARRAY]
      [([], type_t (OTHER_KIND 1) [] [IS_INTEGRAL] []), ([], type_t (OTHER_KIND 1) [] [] [])])
     = sym_type (type_t (OTHER_KIND 1) [] [IS_INTEGRAL] [])
   \<and> sym_type (type_t (OTHER_KIND 1) [] [IS_INTEGRAL] []) = Inr Variable
   \<and> sym_type (type_t TYPEDEF [TYPEDEF] [IS_ARRAY]
      [([], type_t (OTHER_KIND 2) [] [IS_CHANNEL] [])]) = Inr Type
   \<and> sym_type (type_t (OTHER_KIND 2) [] [IS_CHANNEL, IS_RECORD, IS_ARRAY] []) = Inr Channel
   \<and> sym_type (type_t (OTHER_KIND 3) [] [IS_FUNCTION_EXTERNAL, IS_ARRAY] []) = Inr Function
   \<and> sym_type (type_t (OTHER_KIND 4) [] [] []) = Inr Unknown"
  using
    sym_type_first_match [of "type_t (OTHER_KIND 0) [] [IS_ARRAY]
      [([], type_t (OTHER_KIND 1) [] [IS_INTEGRAL] []), ([], type_t (OTHER_KIND 1) [] [] [])]"
      "type_t (OTHER_KIND 1) [] [IS_INTEGRAL] []"]
    sym_type_first_match [of "type_t (OTHER_KIND 1) [] [IS_INTEGRAL] []"]
    sym_type_first_match [of "type_t TYPEDEF [TYPEDEF] [IS_ARRAY]
      [([], type_t (OTHER_KIND 2) [] [IS_CHANNEL] [])]"]
    sym_type_first_match [of "type_t (OTHER_KIND 2) [] [IS_CHANNEL, IS_RECORD, IS_ARRAY] []"]
    sym_type_first_match [of "type_t (OTHER_KIND 3) [] [IS_FUNCTION_EXTERNAL, IS_ARRAY] []"]
    sym_type_first_match [of "type_t (OTHER_KIND 4) [] [] []"]
  by (simp add: sym_type.simps type_preds get_def size_t_def)

section \<open>Generated location names\<close>

lemma is_name_autogenerated_total:
  "is_name_autogenerated nm = Inr (take 3 nm = ''_id'' \<and> list_all is_digit (drop 3 nm))"
proof (cases "take 3 nm = ''_id''")
  case True
  then have "length (take 3 nm) = 3" by simp
  then have "3 \<le> length nm" by simp
  with True show ?thesis
    by (simp add: is_name_autogenerated_def substr_def substr_from_def)
next
  case False
  then show ?thesis
    by (simp add: is_name_autogenerated_def substr_def)
qed

lemma add_locations_append:
  "add_locations (xs @ ys) rb =
     (case add_locations xs rb of Inl e \<Rightarrow> Inl e | Inr rb' \<Rightarrow> add_locations ys rb')"
  by (induction xs arbitrary: rb)
    (simp_all add: is_name_autogenerated_total split: bool.splits)

lemma add_locations_skip:
  "is_name_autogenerated (get_name loc) = Inr True \<Longrightarrow>
   add_locations (xs @ loc # ys) rb = add_locations (xs @ ys) rb"
  by (simp add: add_locations_append split: sum.splits)

text \<open>
  C10.  The predicate for generated names accepts the bare name \<^verbatim>\<open>_id\<close>, which has no
  digit after it and so does not match the pattern of the specification; a location named
  \<^verbatim>\<open>_id\<close>, wherever it stands among the locations of a template, adds nothing to the
  members of the template.
\<close>

theorem bare_id_is_autogenerated:
  "is_name_autogenerated ''_id'' = Inr True \<and> \<not> matches_id_digits ''_id''
   \<and> add_template (templ\<lparr>locations := before @ symbol_t ''_id'' ty fr # after\<rparr>) rb
       = add_template (templ\<lparr>locations := before @ after\<rparr>) rb"
proof -
  have a: "is_name_autogenerated ''_id'' = Inr True"
    by (simp add: is_name_autogenerated_total)
  have "is_name_autogenerated (get_name (symbol_t ''_id'' ty fr)) = Inr True"
    using a by simp
  then have "add_locations (before @ symbol_t ''_id'' ty fr # after) r
     = add_locations (before @ after) r" for r
    by (rule add_locations_skip)
  with a show ?thesis
    by (simp add: add_template_def matches_id_digits_def)
qed

section \<open>How the builder grows\<close>

text \<open>
  Every operation of the builder only appends items that pass the mask, and leaves the
  prefix and the mask as they are; none of them fails, although \<^verbatim>\<open>get\<close>, \<^verbatim>\<open>get_label\<close> and
  \<^verbatim>\<open>substr\<close> can: they are called in range.
\<close>

lemma grows_refl: "grows Q rb rb"
  by (simp add: grows_def)

lemma grows_trans: "grows Q a b \<Longrightarrow> grows Q b c \<Longrightarrow> grows Q a c"
  by (auto simp: grows_def)

lemma add_item_grows: "Q (Suggestion nm ty) \<Longrightarrow> grows Q rb (add_item nm ty rb)"
  by (simp add: grows_def add_item_def type_check_def)

lemma add_items_grows:
  "list_all (list_all Q) cs \<Longrightarrow> grows Q rb (add_items cs rb)"
proof (induction cs arbitrary: rb)
  case Nil
  show ?case by (simp add: grows_refl)
next
  case (Cons c cs)
  let ?rb1 = "rb\<lparr>items := items rb @ filter (type_check (type_filter_mask rb)) c\<rparr>"
  from Cons.prems have g1: "grows Q rb ?rb1"
    by (simp add: grows_def list_all_iff)
  from Cons have g2: "grows Q ?rb1 (add_items cs ?rb1)"
    by simp
  from grows_trans [OF g1 g2] show ?case
    by simp
qed

lemma add_struct_labels_grows:
  assumes "\<And>x. Q (Suggestion (prefix rb @ x) Variable)"
  shows "\<exists>rb'. add_struct_labels t i rb = Inr rb' \<and> grows Q rb rb'"
  using assms
proof (induction t i rb rule: add_struct_labels.induct)
  case (1 t i rb)
  show ?case
  proof (cases "i < size_t t")
    case False
    then show ?thesis
      by (subst add_struct_labels.simps) (simp add: grows_refl)
  next
    case True
    let ?l = "fst (children t ! i)"
    let ?rb1 = "add_item (prefix rb @ ?l) Variable rb"
    from True have l: "get_label t i = Inr ?l"
      by (simp add: get_label_def)
    from "1.prems" have g1: "grows Q rb ?rb1"
      by (simp add: add_item_grows)
    then have p: "prefix ?rb1 = prefix rb"
      by (simp add: grows_def)
    from "1.IH" [OF True l] "1.prems" p
    obtain rb' where r: "add_struct_labels t (i + 1) ?rb1 = Inr rb'" and g2: "grows Q ?rb1 rb'"
      by auto
    from True l r have "add_struct_labels t i rb = Inr rb'"
      by (subst add_struct_labels.simps) simp
    with g1 g2 show ?thesis
      by (auto intro: grows_trans)
  qed
qed

lemma add_struct_grows:
  assumes "\<And>x. Q (Suggestion (prefix rb @ x) Variable)"
  shows "\<exists>rb'. add_struct t rb = Inr rb' \<and> grows Q rb rb'"
  using assms
proof (induction t rb rule: add_struct.induct)
  case (1 t rb)
  show ?case
  proof (cases "size_t t = 0")
    case True
    then show ?thesis
      by (subst add_struct.simps) (simp add: grows_refl)
  next
    case nonempty: False
    show ?thesis
    proof (cases "get_kind t \<noteq> RECORD")
      case True
      from nonempty obtain c where c: "get t 0 = Inr c"
        by (auto simp: get_def)
      from "1.IH" [OF nonempty True c] "1.prems"
      obtain rb' where "add_struct c rb = Inr rb'" and "grows Q rb rb'"
        by auto
      with nonempty True c show ?thesis
        by (subst add_struct.simps) simp
    next
      case False
      with nonempty have "add_struct t rb = add_struct_labels t 0 rb"
        by (subst add_struct.simps) simp
      with add_struct_labels_grows [of Q rb t 0] "1.prems" show ?thesis
        by simp
    qed
  qed
qed

lemma fold_add_item_grows:
  assumes "\<And>x. Q (Suggestion (prefix rb @ x) ty)"
  shows "grows Q rb (fold (\<lambda>v r. add_item (prefix r @ get_name v) ty r) vs rb)"
  using assms
proof (induction vs arbitrary: rb)
  case Nil
  show ?case by (simp add: grows_refl)
next
  case (Cons v vs)
  let ?rb1 = "add_item (prefix rb @ get_name v) ty rb"
  from Cons.prems have g1: "grows Q rb ?rb1"
    by (simp add: add_item_grows)
  then have "prefix ?rb1 = prefix rb"
    by (simp add: grows_def)
  with Cons have "grows Q ?rb1 (fold (\<lambda>v r. add_item (prefix r @ get_name v) ty r) vs ?rb1)"
    by simp
  with g1 show ?case
    by (auto intro: grows_trans)
qed

lemma add_locations_grows:
  assumes "\<And>x. is_name_autogenerated x = Inr False \<Longrightarrow> Q (Suggestion (prefix rb @ x) Unknown)"
  shows "\<exists>rb'. add_locations ls rb = Inr rb' \<and> grows Q rb rb'"
  using assms
proof (induction ls arbitrary: rb)
  case Nil
  show ?case by (simp add: grows_refl)
next
  case (Cons l ls)
  show ?case
  proof (cases "take 3 (get_name l) = ''_id'' \<and> list_all is_digit (drop 3 (get_name l))")
    case True
    then have "add_locations (l # ls) rb = add_locations ls rb"
      by (simp add: is_name_autogenerated_total)
    with Cons.IH [OF Cons.prems] show ?thesis
      by simp
  next
    case False
    let ?rb1 = "add_item (prefix rb @ get_name l) Unknown rb"
    from False have n: "is_name_autogenerated (get_name l) = Inr False"
      by (simp add: is_name_autogenerated_total)
    with Cons.prems have g1: "grows Q rb ?rb1"
      by (simp add: add_item_grows)
    then have "prefix ?rb1 = prefix rb"
      by (simp add: grows_def)
    with Cons.prems have "Q (Suggestion (prefix ?rb1 @ x) Unknown)"
      if "is_name_autogenerated x = Inr False" for x
      using that by simp
    from Cons.IH [OF this]
    obtain rb' where "add_locations ls ?rb1 = Inr rb'" and "grows Q ?rb1 rb'"
      by auto
    with g1 n show ?thesis
      by (auto intro: grows_trans)
  qed
qed

lemma add_template_grows:
  assumes v: "\<And>x. Q (Suggestion (prefix rb @ x) Variable)"
    and f: "\<And>x. Q (Suggestion (prefix rb @ x) Function)"
    and u: "\<And>x. is_name_autogenerated x = Inr False \<Longrightarrow> Q (Suggestion (prefix rb @ x) Unknown)"
  shows "\<exists>rb'. add_template templ rb = Inr rb' \<and> grows Q rb rb'"
proof -
  let ?rb1 = "fold (\<lambda>var r. add_item (prefix r @ get_name var) Variable r) (variables templ) rb"
  let ?rb2 = "fold (\<lambda>func r. add_item (prefix r @ get_name func) Function r) (functions' templ) ?rb1"
  from v have g1: "grows Q rb ?rb1"
    by (simp add: fold_add_item_grows)
  then have p1: "prefix ?rb1 = prefix rb"
    by (simp add: grows_def)
  with f have g2: "grows Q ?rb1 ?rb2"
    by (simp add: fold_add_item_grows)
  then have p2: "prefix ?rb2 = prefix rb"
    using p1 by (simp add: grows_def)
  with u have "Q (Suggestion (prefix ?rb2 @ x) Unknown)"
    if "is_name_autogenerated x = Inr False" for x
    using that by simp
  from add_locations_grows [of Q ?rb2 "locations templ", OF this]
  obtain rb' where "add_locations (locations templ) ?rb2 = Inr rb'" and "grows Q ?rb2 rb'"
    by auto
  with g1 g2 show ?thesis
    by (auto simp: add_template_def Let_def intro: grows_trans)
qed

lemma visit_entity_grows:
  assumes v: "\<And>x. Q (Suggestion (prefix rb @ x) Variable)"
    and f: "\<And>x. Q (Suggestion (prefix rb @ x) Function)"
    and u: "\<And>x. is_name_autogenerated x = Inr False \<Longrightarrow> Q (Suggestion (prefix rb @ x) Unknown)"
  shows "\<exists>rb'. visit_entity svc is_query entity rb = Inr rb' \<and> grows Q rb rb'"
proof (cases entity)
  case (EntityType ty)
  with add_struct_grows [of Q rb ty] v show ?thesis
    by (simp add: visit_entity_def)
next
  case (EntitySymbol symb)
  show ?thesis
  proof (cases "is_template symb \<and> is_query")
    case True
    with EntitySymbol add_template_grows [of Q rb, OF v f u] show ?thesis
      by (auto simp: visit_entity_def grows_refl split: option.splits)
  next
    case False
    show ?thesis
    proof (cases "is_struct symb")
      case True
      then obtain c where c: "get (get_type symb) 0 = Inr c"
        by (auto simp: is_struct_def get_def)
      with EntitySymbol False True add_struct_grows [of Q rb c] v show ?thesis
        by (auto simp: visit_entity_def)
    next
      case nostruct: False
      with EntitySymbol False show ?thesis
        by (auto simp: visit_entity_def grows_refl)
    qed
  qed
qed

lemma sym_type_not_process: "sym_type t = Inr ty \<Longrightarrow> ty \<noteq> Process"
proof (induction t rule: sym_type.induct)
  case (1 t)
  from "1.prems" show ?case
    by (subst (asm) sym_type.simps) (auto split: if_splits sum.splits dest: "1.IH")
qed

lemma visit_callback_grows:
  assumes "visit_callback req decls ut symb rng rb = Inr (b, rb')"
    and "\<And>n ty. ty \<noteq> Process \<or> ut \<Longrightarrow> Q (Suggestion n ty)"
  shows "\<not> b \<and> grows Q rb rb'"
  using assms
  by (auto simp: visit_callback_def Let_def grows_refl
      split: if_splits sum.splits dest: sym_type_not_process intro!: add_item_grows)

lemma visit_symbols_grows:
  assumes "visit_symbols ws (visit_callback req decls ut) rb = Inr rb'"
    and "\<And>n ty. ty \<noteq> Process \<or> ut \<Longrightarrow> Q (Suggestion n ty)"
  shows "grows Q rb rb'"
  using assms(1)
proof (induction ws arbitrary: rb)
  case Nil
  then show ?case by (simp add: grows_refl)
next
  case (Cons w ws)
  obtain symb rng where w: "w = (symb, rng)" by (cases w)
  from Cons.prems w obtain b rb1
    where c: "visit_callback req decls ut symb rng rb = Inr (b, rb1)"
      and r: "(if b then Inr rb1 else visit_symbols ws (visit_callback req decls ut) rb1) = Inr rb'"
    by (auto split: sum.splits)
  from visit_callback_grows [OF c, of Q] assms(2) have b: "\<not> b" and g1: "grows Q rb rb1"
    by auto
  from r b have "visit_symbols ws (visit_callback req decls ut) rb1 = Inr rb'"
    by simp
  then have "grows Q rb1 rb'"
    by (rule Cons.IH)
  with g1 show ?case
    by (rule grows_trans)
qed

lemma tables_no_process:
  "list_all (\<lambda>s. type s \<noteq> Process) guard_items"
  "list_all (\<lambda>s. type s \<noteq> Process) queries_items"
  "list_all (\<lambda>s. type s \<noteq> Process) parameter_items"
  "list_all (\<lambda>s. type s \<noteq> Process) default_items"
  "list_all (\<lambda>s. type s \<noteq> Process) builtin_functions"
  by (simp_all add: guard_items_def queries_items_def parameter_items_def default_items_def
      builtin_functions_def)

lemma add_defaults_grows:
  assumes "\<And>s. type s \<noteq> Process \<Longrightarrow> Q s"
  shows "grows Q rb (add_defaults xp rb)"
proof -
  have "list_all Q t" if "list_all (\<lambda>s. type s \<noteq> Process) t" for t
    using that assms by (simp add: list_all_iff)
  with tables_no_process show ?thesis
    by (simp add: add_defaults_def add_items_grows del: add_items.simps)
qed

lemma configure_mask_fields:
  "items (configure_mask xp ResultBuilder_init) = []
   \<and> prefix (configure_mask xp ResultBuilder_init) = []"
  by (simp add: configure_mask_def set_ignored_mask_def ResultBuilder_init_def)

lemma grows_from_empty:
  "grows Q rb rb' \<Longrightarrow> items rb = [] \<Longrightarrow>
   list_all (\<lambda>s. type_check (type_filter_mask rb) s \<and> Q s) (items rb')"
  by (auto simp: grows_def)

section \<open>The items of a request\<close>

lemma find_last_of_None: "(find_last_of s c = None) = (c \<notin> set s)"
  by (induction s) (auto split: option.splits)

lemma find_last_of_Some:
  "find_last_of s c = Some i \<Longrightarrow> i < length s \<and> s ! i = c \<and> c \<notin> set (drop (Suc i) s)"
proof (induction s arbitrary: i)
  case Nil
  then show ?case by simp
next
  case (Cons x xs)
  show ?case
  proof (cases "find_last_of xs c")
    case None
    with Cons.prems have "x = c" and "i = 0"
      by (auto split: if_splits)
    with None show ?thesis
      by (simp add: find_last_of_None)
  next
    case (Some j)
    with Cons.prems have "i = Suc j" by simp
    with Cons.IH [OF Some] show ?thesis by simp
  qed
qed

lemma autocomplete_dotted:
  assumes d: "find_last_of (identifier' req) CHR ''.'' = Some off"
    and a: "autocomplete svc req = Inr its"
    and v: "\<And>x. Q (Suggestion (take (off + 1) (identifier' req) @ x) Variable)"
    and f: "\<And>x. Q (Suggestion (take (off + 1) (identifier' req) @ x) Function)"
    and u: "\<And>x. is_name_autogenerated x = Inr False \<Longrightarrow>
              Q (Suggestion (take (off + 1) (identifier' req) @ x) Unknown)"
  shows "list_all (\<lambda>s. type_check (type_filter_mask (configure_mask (xpath req) ResultBuilder_init)) s
            \<and> Q s) its"
proof -
  let ?rb = "configure_mask (xpath req) ResultBuilder_init"
  let ?P = "take (off + 1) (identifier' req)"
  from a obtain decls where n: "navigate_xpath svc (xpath req) (offset req) = Inr decls"
    by (auto simp: autocomplete_def Let_def split: sum.splits)
  show ?thesis
  proof (cases "find_declaration svc decls (take off (identifier' req))")
    case None
    with a d n have "its = []"
      by (auto simp: autocomplete_def Let_def substr_def get_items_def configure_mask_fields)
    then show ?thesis by simp
  next
    case (Some entity)
    have p: "prefix (set_prefix ?P ?rb) = ?P"
      by (simp add: set_prefix_def)
    from visit_entity_grows [of Q "set_prefix ?P ?rb"] v f u p
    obtain rb' where v: "visit_entity svc (xpath req = ''/nta/queries!'') entity (set_prefix ?P ?rb) = Inr rb'"
      and g: "grows Q (set_prefix ?P ?rb) rb'"
      by metis
    from a d n Some v have i: "its = items rb'"
      by (auto simp: autocomplete_def Let_def substr_def get_items_def)
    have "items (set_prefix ?P ?rb) = []"
      by (simp add: set_prefix_def configure_mask_fields)
    from grows_from_empty [OF g this] i show ?thesis
      by (simp add: set_prefix_def)
  qed
qed

lemma autocomplete_plain:
  assumes d: "find_last_of (identifier' req) CHR ''.'' = None"
    and a: "autocomplete svc req = Inr its"
  shows "list_all (\<lambda>s. type_check (type_filter_mask (configure_mask (xpath req) ResultBuilder_init)) s
            \<and> (type s = Process \<longrightarrow>
                  xpath req = ''/nta/queries!'' \<or> xpath req = ''/nta/system!'')) its"
proof -
  let ?rb = "configure_mask (xpath req) ResultBuilder_init"
  let ?ut = "xpath req = ''/nta/queries!'' \<or> xpath req = ''/nta/system!''"
  let ?Q = "\<lambda>s. type s = Process \<longrightarrow> ?ut"
  from a obtain decls where n: "navigate_xpath svc (xpath req) (offset req) = Inr decls"
    by (auto simp: autocomplete_def Let_def split: sum.splits)
  from a d n obtain rb'
    where v: "visit_symbols (walk svc decls) (visit_callback req decls ?ut)
                (add_defaults (xpath req) ?rb) = Inr rb'"
      and i: "its = items rb'"
    by (auto simp: autocomplete_def Let_def get_items_def split: sum.splits)
  have "grows ?Q ?rb (add_defaults (xpath req) ?rb)"
    by (rule add_defaults_grows) simp
  moreover have "grows ?Q (add_defaults (xpath req) ?rb) rb'"
    by (rule visit_symbols_grows [OF v]) auto
  ultimately have "grows ?Q ?rb rb'"
    by (rule grows_trans)
  from grows_from_empty [OF this] i show ?thesis
    by (simp add: configure_mask_fields)
qed

section \<open>Filter soundness\<close>

lemma ends_with_both:
  assumes "ends_with s x" and "ends_with s y" and "length x \<le> length y"
  shows "ends_with y x"
proof -
  from assms have x: "drop (length s - length x) s = x" and y: "drop (length s - length y) s = y"
    and l: "length y \<le> length s"
    by (simp_all add: ends_with_def)
  from l assms(3) have "length y - length x + (length s - length y) = length s - length x"
    by simp
  then have "drop (length y - length x) (drop (length s - length y) s) = x"
    using x by (simp only: drop_drop)
  with y assms(3) show ?thesis
    by (simp add: ends_with_def)
qed

lemma parameter_mask:
  "ends_with xp ''/parameter!'' \<Longrightarrow>
   type_filter_mask (configure_mask xp rb) = NOT (sym_bits Type)"
  by (simp add: configure_mask_def set_ignored_mask_def)

lemma synchronisation_mask:
  assumes "ends_with xp (label_kind ''synchronisation'')"
  shows "type_filter_mask (configure_mask xp rb) = NOT (sym_bits Channel)"
proof -
  have n: "\<not> ends_with xp y"
    if "length y \<le> length (label_kind ''synchronisation'')"
      and "\<not> ends_with (label_kind ''synchronisation'') y" for y
  proof
    assume "ends_with xp y"
    from ends_with_both [OF this assms that(1)] that(2) show False
      by simp
  qed
  have "\<not> ends_with xp ''/parameter!''"
    by (rule n) (simp_all add: ends_with_def label_kind_def)
  moreover have "\<not> ends_with xp (label_kind ''invariant'')"
    by (rule n) (simp_all add: ends_with_def label_kind_def)
  moreover have "\<not> ends_with xp (label_kind ''exponentialrate'')"
    by (rule n) (simp_all add: ends_with_def label_kind_def)
  moreover have "\<not> ends_with xp (label_kind ''select'')"
    by (rule n) (simp_all add: ends_with_def label_kind_def)
  moreover have "\<not> ends_with xp (label_kind ''guard'')"
    by (rule n) (simp_all add: ends_with_def label_kind_def)
  ultimately show ?thesis
    using assms
    by (simp add: configure_mask_def set_ignored_mask_def)
qed

lemma parameter_only_type:
  "ends_with xp ''/parameter!'' \<Longrightarrow>
   (type_filter_mask (configure_mask xp rb) AND sym_bits ty = 0) = (ty = Type)"
  by (cases ty) (simp_all add: parameter_mask)

lemma synchronisation_only_channel:
  "ends_with xp (label_kind ''synchronisation'') \<Longrightarrow>
   (type_filter_mask (configure_mask xp rb) AND sym_bits ty = 0) = (ty = Channel)"
  by (cases ty) (simp_all add: synchronisation_mask)

text \<open>
  C2.  Every suggestion that a request returns passes the mask of ignored kinds derived
  from the xpath of the request: the mask and the bit of its kind have no bit in common.
  Under an xpath ending with \<^verbatim>\<open>/parameter!\<close> only suggestions of kind type are returned, and
  under a synchronisation label only suggestions of kind channel.
\<close>

theorem filter_soundness:
  assumes "autocomplete svc req = Inr its"
  shows "(\<forall>s \<in> set its.
            type_filter_mask (configure_mask (xpath req) ResultBuilder_init) AND sym_bits (type s) = 0)
    \<and> (ends_with (xpath req) ''/parameter!'' \<longrightarrow> (\<forall>s \<in> set its. type s = Type))
    \<and> (ends_with (xpath req) (label_kind ''synchronisation'') \<longrightarrow>
          (\<forall>s \<in> set its. type s = Channel))"
proof -
  let ?m = "type_filter_mask (configure_mask (xpath req) ResultBuilder_init)"
  have "list_all (type_check ?m) its"
  proof (cases "find_last_of (identifier' req) CHR ''.''")
    case None
    from autocomplete_plain [OF None assms] show ?thesis
      by (simp add: list_all_iff)
  next
    case (Some off)
    from autocomplete_dotted [OF Some assms, of "\<lambda>s. True"] show ?thesis
      by (simp add: list_all_iff)
  qed
  then have m: "\<forall>s \<in> set its. ?m AND sym_bits (type s) = 0"
    by (simp add: list_all_iff type_check_def)
  have "\<forall>s \<in> set its. type s = Type" if "ends_with (xpath req) ''/parameter!''"
    using m parameter_only_type [OF that] by blast
  moreover have "\<forall>s \<in> set its. type s = Channel"
    if "ends_with (xpath req) (label_kind ''synchronisation'')"
    using m synchronisation_only_channel [OF that] by blast
  ultimately show ?thesis
    using m by blast
qed

theorem filter_soundness_witness:
  "autocomplete example_service
     \<lparr>xpath = ''/nta/template[1]/transition[2]/'' @ label_kind ''synchronisation'',
      offset = 0, identifier' = []\<rparr> = Inr [Suggestion ''c'' Channel]
   \<and> ends_with (''/nta/template[1]/transition[2]/'' @ label_kind ''synchronisation'')
        (label_kind ''synchronisation'')
   \<and> type_filter_mask
        (configure_mask (''/nta/template[1]/transition[2]/'' @ label_kind ''synchronisation'')
           ResultBuilder_init) AND sym_bits (type (Suggestion ''c'' Channel)) = 0"
proof -
  have a: "autocomplete example_service
     \<lparr>xpath = ''/nta/template[1]/transition[2]/'' @ label_kind ''synchronisation'',
      offset = 0, identifier' = []\<rparr> = Inr [Suggestion ''c'' Channel]"
    by (simp add: autocomplete_eval example_defs)
  have e: "ends_with (''/nta/template[1]/transition[2]/'' @ label_kind ''synchronisation'')
        (label_kind ''synchronisation'')"
    by (simp add: ends_with_def label_kind_def)
  from filter_soundness [OF a] a e show ?thesis
    by simp
qed

section \<open>Dotted identifiers\<close>

text \<open>
  C5.  When the identifier of a request contains a dot, the position \<open>off\<close> of its last dot
  is such that every returned name starts with the identifier up to and including that dot.
\<close>

theorem prefix_preservation:
  assumes "CHR ''.'' \<in> set (identifier' req)"
    and "autocomplete svc req = Inr its"
  shows "\<exists>off < length (identifier' req).
           identifier' req ! off = CHR ''.''
           \<and> CHR ''.'' \<notin> set (drop (Suc off) (identifier' req))
           \<and> (\<forall>s \<in> set its. starts_with (name s) (take (Suc off) (identifier' req)))"
proof -
  from assms(1) obtain off where d: "find_last_of (identifier' req) CHR ''.'' = Some off"
    by (cases "find_last_of (identifier' req) CHR ''.''") (simp_all add: find_last_of_None)
  note l = find_last_of_Some [OF d]
  then have "length (take (off + 1) (identifier' req)) = off + 1"
    by simp
  then have "starts_with (name (Suggestion (take (off + 1) (identifier' req) @ x) ty))
      (take (off + 1) (identifier' req))" for x ty
    by (simp add: starts_with_def)
  from autocomplete_dotted [OF d assms(2),
      of "\<lambda>s. starts_with (name s) (take (off + 1) (identifier' req))", OF this this this]
  have "\<forall>s \<in> set its. starts_with (name s) (take (Suc off) (identifier' req))"
    by (simp add: list_all_iff)
  with l show ?thesis
    by blast
qed

theorem prefix_preservation_witness:
  "CHR ''.'' \<in> set ''s.''
   \<and> autocomplete example_service
        \<lparr>xpath = ''/nta/declaration'', offset = 0, identifier' = ''s.''\<rparr>
       = Inr [Suggestion ''s.a'' Variable, Suggestion ''s.b'' Variable]
   \<and> starts_with ''s.a'' ''s.'' \<and> starts_with ''s.b'' ''s.''"
proof -
  let ?req = "\<lparr>xpath = ''/nta/declaration'', offset = 0, identifier' = ''s.''\<rparr>"
  have d: "CHR ''.'' \<in> set (identifier' ?req)"
    by simp
  have a: "autocomplete example_service ?req
      = Inr [Suggestion ''s.a'' Variable, Suggestion ''s.b'' Variable]"
    by (simp add: autocomplete_eval example_defs)
  from prefix_preservation [OF d a]
  obtain off where o: "off < length (identifier' ?req)"
    and c: "identifier' ?req ! off = CHR ''.''"
    and s: "\<forall>s \<in> set [Suggestion ''s.a'' Variable, Suggestion ''s.b'' Variable].
          starts_with (name s) (take (Suc off) (identifier' ?req))"
    by blast
  from o c have "off = 1"
    by (cases off) auto
  with s a show ?thesis
    by simp
qed

lemma tables_no_dot:
  "list_all (\<lambda>s. CHR ''.'' \<notin> set (name s)) guard_items"
  "list_all (\<lambda>s. CHR ''.'' \<notin> set (name s)) queries_items"
  "list_all (\<lambda>s. CHR ''.'' \<notin> set (name s)) parameter_items"
  "list_all (\<lambda>s. CHR ''.'' \<notin> set (name s)) default_items"
  "list_all (\<lambda>s. CHR ''.'' \<notin> set (name s)) builtin_functions"
  by (simp_all add: guard_items_def queries_items_def parameter_items_def default_items_def
      builtin_functions_def)

text \<open>
  C8.  For a request whose identifier has its last dot at \<open>off\<close>: when the xpath is navigated
  to a declarations block in which the head, the identifier before that dot, names no
  entity, the result is the empty list; and whatever the head names, no returned suggestion
  is an entry of the keyword tables or of the table of built-in functions.
\<close>

theorem unresolved_prefix_empty:
  assumes "find_last_of (identifier' req) CHR ''.'' = Some off"
  shows "(navigate_xpath svc (xpath req) (offset req) = Inr decls
          \<and> find_declaration svc decls (take off (identifier' req)) = None
          \<longrightarrow> autocomplete svc req = Inr [])
    \<and> (autocomplete svc req = Inr its \<longrightarrow>
          (\<forall>s \<in> set its.
             s \<notin> set (guard_items @ queries_items @ parameter_items @ default_items
                       @ builtin_functions)))"
proof -
  have "autocomplete svc req = Inr []"
    if "navigate_xpath svc (xpath req) (offset req) = Inr decls"
      and "find_declaration svc decls (take off (identifier' req)) = None"
    using that assms
    by (simp add: autocomplete_def Let_def substr_def get_items_def configure_mask_fields)
  moreover have "s \<notin> set (guard_items @ queries_items @ parameter_items @ default_items
                       @ builtin_functions)"
    if a: "autocomplete svc req = Inr its" and s: "s \<in> set its" for s
  proof -
    from find_last_of_Some [OF assms]
    have "identifier' req ! off \<in> set (take (off + 1) (identifier' req))"
      and "identifier' req ! off = CHR ''.''"
      by (simp_all add: in_set_conv_nth) (metis lessI nth_take)
    then have "CHR ''.'' \<in> set (name (Suggestion (take (off + 1) (identifier' req) @ x) ty))"
      for x ty
      by simp
    from autocomplete_dotted [OF assms a, of "\<lambda>s. CHR ''.'' \<in> set (name s)", OF this this this] s
    have "CHR ''.'' \<in> set (name s)"
      by (simp add: list_all_iff)
    with tables_no_dot show ?thesis
      by (auto simp: list_all_iff)
  qed
  ultimately show ?thesis
    by blast
qed

theorem unresolved_prefix_empty_witness:
  "find_last_of ''q.r.'' CHR ''.'' = Some 3
   \<and> navigate_xpath example_service ''/nta/declaration'' 0 = Inr \<lparr>frame = 0\<rparr>
   \<and> find_declaration example_service \<lparr>frame = 0\<rparr> ''q.r'' = None
   \<and> autocomplete example_service
        \<lparr>xpath = ''/nta/declaration'', offset = 0, identifier' = ''q.r.''\<rparr> = Inr []
   \<and> autocomplete example_service
        \<lparr>xpath = ''/nta/queries!'', offset = 0, identifier' = ''P.''\<rparr>
       = Inr [Suggestion ''P.y'' Variable, Suggestion ''P._id0'' Variable,
              Suggestion ''P.g'' Function, Suggestion ''P.Idle'' Unknown]
   \<and> Suggestion ''P.y'' Variable
       \<notin> set (guard_items @ queries_items @ parameter_items @ default_items @ builtin_functions)"
proof -
  let ?req = "\<lparr>xpath = ''/nta/declaration'', offset = 0, identifier' = ''q.r.''\<rparr>"
  let ?req' = "\<lparr>xpath = ''/nta/queries!'', offset = 0, identifier' = ''P.''\<rparr>"
  have d: "find_last_of (identifier' ?req) CHR ''.'' = Some 3"
    by simp
  have n: "navigate_xpath example_service (xpath ?req) (offset ?req) = Inr \<lparr>frame = 0\<rparr>"
    by (simp add: example_service_def)
  have f: "find_declaration example_service \<lparr>frame = 0\<rparr> (take 3 (identifier' ?req)) = None"
    by (simp add: example_service_def)
  have d': "find_last_of (identifier' ?req') CHR ''.'' = Some 1"
    by simp
  have a: "autocomplete example_service ?req'
       = Inr [Suggestion ''P.y'' Variable, Suggestion ''P._id0'' Variable,
              Suggestion ''P.g'' Function, Suggestion ''P.Idle'' Unknown]"
    by (simp add: autocomplete_eval example_defs)
  from unresolved_prefix_empty [OF d, of example_service "\<lparr>frame = 0\<rparr>"] n f
  have "autocomplete example_service ?req = Inr []"
    by blast
  moreover from unresolved_prefix_empty [OF d', of example_service] a
  have "Suggestion ''P.y'' Variable
       \<notin> set (guard_items @ queries_items @ parameter_items @ default_items @ builtin_functions)"
    by simp
  ultimately show ?thesis
    using d n f a by simp
qed

section \<open>Failure of the navigation\<close>

text \<open>
  C9, as amended.  The command does not handle a failure of \<^verbatim>\<open>navigate_xpath\<close>: when the
  xpath cannot be navigated to a declarations block, the failure leaves the command as it
  is, and no list is returned.
\<close>

theorem navigation_failure_propagates:
  "navigate_xpath svc (xpath req) (offset req) = Inl e \<Longrightarrow> autocomplete svc req = Inl e"
  by (simp add: autocomplete_def Let_def)

theorem navigation_failure_propagates_witness:
  "navigate_xpath example_service ''/nowhere'' 7 = Inl (NavigateError ''/nowhere'')
   \<and> autocomplete example_service \<lparr>xpath = ''/nowhere'', offset = 7, identifier' = ''s.''\<rparr>
       = Inl (NavigateError ''/nowhere'')"
proof -
  let ?req = "\<lparr>xpath = ''/nowhere'', offset = 7, identifier' = ''s.''\<rparr>"
  have n: "navigate_xpath example_service (xpath ?req) (offset ?req)
      = Inl (NavigateError ''/nowhere'')"
    by (simp add: example_service_def)
  from navigation_failure_propagates [OF n] n show ?thesis
    by simp
qed

text \<open>
  C9, as stated, fails: for an xpath that cannot be navigated the command does not return
  the empty list.
\<close>

theorem navigation_failure_counterexample:
  "navigate_xpath example_service ''/nowhere'' 0 = Inl (NavigateError ''/nowhere'')
   \<and> autocomplete example_service \<lparr>xpath = ''/nowhere'', offset = 0, identifier' = []\<rparr>
       \<noteq> Inr []"
  by (simp add: autocomplete_def example_service_def)

section \<open>The walk of a request\<close>

lemma grows_items: "grows Q rb rb' \<Longrightarrow> set (items rb) \<subseteq> set (items rb')"
  by (auto simp: grows_def)

lemma grows_mask: "grows Q rb rb' \<Longrightarrow> type_filter_mask rb' = type_filter_mask rb"
  by (simp add: grows_def)

lemma add_defaults_same_mask:
  "type_filter_mask (add_defaults xp rb) = type_filter_mask rb"
  using add_defaults_grows [of "\<lambda>s. True" rb xp] by (simp add: grows_mask)

lemma add_defaults_mask0:
  "type_filter_mask rb = 0 \<Longrightarrow> type_filter_mask (add_defaults xp rb) = 0"
  by (simp add: add_defaults_def add_items_mask0 del: add_items.simps)

lemma exact_paths_unfiltered:
  "configure_mask ''/nta/queries!'' rb = rb" "configure_mask ''/nta/system!'' rb = rb"
  by (simp_all add: configure_mask_def ends_with_def label_kind_def)

lemma exact_paths_mask:
  assumes "xp = ''/nta/queries!'' \<or> xp = ''/nta/system!''"
  shows "type_filter_mask (add_defaults xp (configure_mask xp ResultBuilder_init)) = 0"
proof -
  from assms have "configure_mask xp ResultBuilder_init = ResultBuilder_init"
    by (auto simp only: exact_paths_unfiltered)
  moreover have "type_filter_mask ResultBuilder_init = 0"
    by (simp add: ResultBuilder_init_def)
  ultimately show ?thesis
    by (simp only: add_defaults_mask0)
qed

lemma plain_request_walk:
  assumes "navigate_xpath svc (xpath req) (offset req) = Inr decls"
    and "find_last_of (identifier' req) CHR ''.'' = None"
    and "autocomplete svc req = Inr its"
  shows "\<exists>rb'. visit_symbols (walk svc decls)
            (visit_callback req decls (xpath req = ''/nta/queries!'' \<or> xpath req = ''/nta/system!''))
            (add_defaults (xpath req) (configure_mask (xpath req) ResultBuilder_init)) = Inr rb'
          \<and> its = items rb'"
  using assms
  by (auto simp: autocomplete_def Let_def get_items_def split: sum.splits)

lemma visit_entity_walk:
  "visit_entity (svc\<lparr>walk := w\<rparr>) is_query entity rb = visit_entity svc is_query entity rb"
  by (cases entity) (simp_all add: visit_entity_def)

lemma visit_callback_hidden:
  "get_frame symb = frame decls \<Longrightarrow> offset req \<le> begOffset rng \<Longrightarrow>
   visit_callback req decls ut symb rng rb = Inr (False, rb)"
  by (simp add: visit_callback_def)

lemma visit_symbols_visible:
  "visit_symbols
     (filter (\<lambda>(sy, r). get_frame sy \<noteq> frame decls \<or> begOffset r < offset req) ws)
     (visit_callback req decls ut) rb
   = visit_symbols ws (visit_callback req decls ut) rb"
proof (induction ws arbitrary: rb)
  case Nil
  show ?case by simp
next
  case (Cons w ws)
  obtain symb rng where w: "w = (symb, rng)" by (cases w)
  show ?case
  proof (cases "get_frame symb \<noteq> frame decls \<or> begOffset rng < offset req")
    case True
    with w Cons show ?thesis
      by (simp split: sum.splits)
  next
    case False
    then have "visit_callback req decls ut symb rng rb = Inr (False, rb)"
      by (simp add: visit_callback_hidden)
    with w False Cons show ?thesis
      by simp
  qed
qed

lemma visit_symbols_returns:
  assumes "visit_symbols ws (visit_callback req decls ut) rb = Inr rb'"
    and "(symb, rng) \<in> set ws"
    and "get_frame symb \<noteq> frame decls \<or> begOffset rng < offset req"
    and "(\<not> is_template symb \<and> sym_type (get_type symb) = Inr ty)
         \<or> (is_template symb \<and> ut \<and> ty = Process)"
    and "type_filter_mask rb AND sym_bits ty = 0"
  shows "Suggestion (get_name symb) ty \<in> set (items rb')"
  using assms(1, 2, 5)
proof (induction ws arbitrary: rb)
  case Nil
  then show ?case by simp
next
  case (Cons w ws)
  obtain sy r where w: "w = (sy, r)" by (cases w)
  from Cons.prems(1) w obtain b rb1
    where c: "visit_callback req decls ut sy r rb = Inr (b, rb1)"
      and v: "(if b then Inr rb1 else visit_symbols ws (visit_callback req decls ut) rb1) = Inr rb'"
    by (auto split: sum.splits)
  from visit_callback_grows [OF c, of "\<lambda>s. True"] have b: "\<not> b" and g1: "grows (\<lambda>s. True) rb rb1"
    by auto
  from v b have v': "visit_symbols ws (visit_callback req decls ut) rb1 = Inr rb'"
    by simp
  from g1 Cons.prems(3) have m: "type_filter_mask rb1 AND sym_bits ty = 0"
    by (simp add: grows_mask)
  show ?case
  proof (cases "(symb, rng) \<in> set ws")
    case True
    from Cons.IH [OF v' True m] show ?thesis .
  next
    case False
    with Cons.prems(2) w have "sy = symb" and "r = rng"
      by auto
    with c assms(3, 4) Cons.prems(3) have "Suggestion (get_name symb) ty \<in> set (items rb1)"
      by (auto simp: visit_callback_def add_item_def)
    moreover from visit_symbols_grows [OF v', of "\<lambda>s. True"] have "set (items rb1) \<subseteq> set (items rb')"
      by (simp add: grows_items)
    ultimately show ?thesis
      by blast
  qed
qed

lemma visit_symbols_classified:
  assumes "visit_symbols ws (visit_callback req decls ut) rb = Inr rb'"
    and "(symb, rng) \<in> set ws"
    and "get_frame symb \<noteq> frame decls \<or> begOffset rng < offset req"
    and "\<not> is_template symb"
  shows "\<exists>ty. sym_type (get_type symb) = Inr ty"
  using assms(1, 2)
proof (induction ws arbitrary: rb)
  case Nil
  then show ?case by simp
next
  case (Cons w ws)
  obtain sy r where w: "w = (sy, r)" by (cases w)
  from Cons.prems(1) w obtain b rb1
    where c: "visit_callback req decls ut sy r rb = Inr (b, rb1)"
      and v: "(if b then Inr rb1 else visit_symbols ws (visit_callback req decls ut) rb1) = Inr rb'"
    by (auto split: sum.splits)
  from visit_callback_grows [OF c, of "\<lambda>s. True"] have b: "\<not> b"
    by auto
  from v b have v': "visit_symbols ws (visit_callback req decls ut) rb1 = Inr rb'"
    by simp
  show ?case
  proof (cases "(symb, rng) \<in> set ws")
    case True
    from Cons.IH [OF v' True] show ?thesis .
  next
    case False
    with Cons.prems(2) w have "sy = symb" and "r = rng"
      by auto
    with c assms(3, 4) show ?thesis
      by (auto simp: visit_callback_def split: sum.splits)
  qed
qed

section \<open>Generated names in the results\<close>

lemma matches_id_digits_autogenerated:
  "matches_id_digits nm \<Longrightarrow> is_name_autogenerated nm = Inr True"
  by (simp add: matches_id_digits_def is_name_autogenerated_total)

lemma autogenerated_iff:
  "(take 3 nm = ''_id'' \<and> list_all is_digit (drop 3 nm)) = (matches_id_digits nm \<or> nm = ''_id'')"
proof (cases "drop 3 nm = []")
  case True
  have "take 3 nm @ drop 3 nm = nm"
    by (rule append_take_drop_id)
  with True have "take 3 nm = nm"
    by simp
  with True show ?thesis
    by (auto simp: matches_id_digits_def)
next
  case False
  then have "nm \<noteq> ''_id''"
    by auto
  with False show ?thesis
    by (simp add: matches_id_digits_def)
qed

lemma fold_add_item_exact:
  "fold (\<lambda>v r. add_item (prefix r @ get_name v) ty r) vs rb =
     rb\<lparr>items := items rb @ filter (type_check (type_filter_mask rb))
                    (map (\<lambda>v. Suggestion (prefix rb @ get_name v) ty) vs)\<rparr>"
  by (induction vs arbitrary: rb) (simp_all add: add_item_def type_check_def)

lemma add_locations_exact:
  "add_locations ls rb =
     Inr (rb\<lparr>items := items rb @ filter (type_check (type_filter_mask rb))
            (map (\<lambda>l. Suggestion (prefix rb @ get_name l) Unknown)
               (filter (\<lambda>l. \<not> (matches_id_digits (get_name l) \<or> get_name l = ''_id'')) ls))\<rparr>)"
  by (induction ls arbitrary: rb)
    (simp_all add: is_name_autogenerated_total autogenerated_iff add_item_def type_check_def)

lemma add_template_exact:
  "add_template templ rb =
     Inr (rb\<lparr>items := items rb @ filter (type_check (type_filter_mask rb))
            (map (\<lambda>v. Suggestion (prefix rb @ get_name v) Variable) (variables templ)
             @ map (\<lambda>f. Suggestion (prefix rb @ get_name f) Function) (functions' templ)
             @ map (\<lambda>l. Suggestion (prefix rb @ get_name l) Unknown)
                 (filter (\<lambda>l. \<not> (matches_id_digits (get_name l) \<or> get_name l = ''_id''))
                    (locations templ)))\<rparr>)"
  by (simp add: add_template_def Let_def fold_add_item_exact add_locations_exact)

text \<open>
  C7, as amended.  The enumeration of the members of a template skips every location whose
  name is \<^verbatim>\<open>_id\<close> followed by one or more decimal digits: such a location, wherever it
  stands among the locations, adds nothing, and in the result of a request with a dotted
  identifier no suggestion of kind unknown, the kind of a location, has such a name after
  the prefix.  The names of the variables and of the functions of the template are not
  tested: the enumeration adds, as far as the mask admits their kinds, every variable,
  then every function, then every location whose name is neither generated nor \<^verbatim>\<open>_id\<close>,
  each under the prefix followed by its name, and in a query context these are the result
  of the request.  The names of the symbols of the walk are not tested either: in a
  request without a dot a visible symbol that is not a template instance is returned under
  its own name whenever the mask admits the kind of its type.
\<close>

theorem generated_locations_skipped:
  "(matches_id_digits (get_name loc) \<longrightarrow>
      add_template (templ\<lparr>locations := before @ loc # after\<rparr>) rb
        = add_template (templ\<lparr>locations := before @ after\<rparr>) rb)
   \<and> (find_last_of (identifier' req) CHR ''.'' = Some off \<and> autocomplete svc req = Inr its \<longrightarrow>
        (\<forall>s \<in> set its. type s = Unknown \<longrightarrow> \<not> matches_id_digits (drop (Suc off) (name s))))
   \<and> add_template templ rb =
        Inr (rb\<lparr>items := items rb @ filter (type_check (type_filter_mask rb))
            (map (\<lambda>v. Suggestion (prefix rb @ get_name v) Variable) (variables templ)
             @ map (\<lambda>f. Suggestion (prefix rb @ get_name f) Function) (functions' templ)
             @ map (\<lambda>l. Suggestion (prefix rb @ get_name l) Unknown)
                 (filter (\<lambda>l. \<not> (matches_id_digits (get_name l) \<or> get_name l = ''_id''))
                    (locations templ)))\<rparr>)
   \<and> (navigate_xpath svc (xpath req) (offset req) = Inr decls
        \<and> find_last_of (identifier' req) CHR ''.'' = Some off
        \<and> find_declaration svc decls (take off (identifier' req)) = Some (EntitySymbol inst)
        \<and> is_template inst \<and> xpath req = ''/nta/queries!''
        \<and> find_process svc (get_name inst) = Some templ
      \<longrightarrow> autocomplete svc req =
            Inr (map (\<lambda>v. Suggestion (take (Suc off) (identifier' req) @ get_name v) Variable)
                   (variables templ)
                 @ map (\<lambda>f. Suggestion (take (Suc off) (identifier' req) @ get_name f) Function)
                     (functions' templ)
                 @ map (\<lambda>l. Suggestion (take (Suc off) (identifier' req) @ get_name l) Unknown)
                     (filter (\<lambda>l. \<not> (matches_id_digits (get_name l) \<or> get_name l = ''_id''))
                        (locations templ))))
   \<and> (navigate_xpath svc (xpath req') (offset req') = Inr decls'
        \<and> find_last_of (identifier' req') CHR ''.'' = None
        \<and> autocomplete svc req' = Inr its'
        \<and> (symb, rng) \<in> set (walk svc decls')
        \<and> (get_frame symb \<noteq> frame decls' \<or> begOffset rng < offset req')
        \<and> \<not> is_template symb \<and> sym_type (get_type symb) = Inr ty
        \<and> type_filter_mask (configure_mask (xpath req') ResultBuilder_init) AND sym_bits ty = 0
      \<longrightarrow> Suggestion (get_name symb) ty \<in> set its')"
proof (intro conjI impI)
  assume "matches_id_digits (get_name loc)"
  then show "add_template (templ\<lparr>locations := before @ loc # after\<rparr>) rb
        = add_template (templ\<lparr>locations := before @ after\<rparr>) rb"
    by (simp add: add_template_def add_locations_skip matches_id_digits_autogenerated)
next
  assume "find_last_of (identifier' req) CHR ''.'' = Some off \<and> autocomplete svc req = Inr its"
  then have d: "find_last_of (identifier' req) CHR ''.'' = Some off"
    and a: "autocomplete svc req = Inr its"
    by simp_all
  let ?Q = "\<lambda>s. type s = Unknown \<longrightarrow> \<not> matches_id_digits (drop (Suc off) (name s))"
  from find_last_of_Some [OF d] have l: "length (take (off + 1) (identifier' req)) = Suc off"
    by simp
  have u: "?Q (Suggestion (take (off + 1) (identifier' req) @ x) Unknown)"
    if "is_name_autogenerated x = Inr False" for x
    using that l matches_id_digits_autogenerated [of x] by auto
  from autocomplete_dotted [OF d a, of ?Q, OF _ _ u]
  show "\<forall>s \<in> set its. type s = Unknown \<longrightarrow> \<not> matches_id_digits (drop (Suc off) (name s))"
    by (simp add: list_all_iff)
next
  show "add_template templ rb =
        Inr (rb\<lparr>items := items rb @ filter (type_check (type_filter_mask rb))
            (map (\<lambda>v. Suggestion (prefix rb @ get_name v) Variable) (variables templ)
             @ map (\<lambda>f. Suggestion (prefix rb @ get_name f) Function) (functions' templ)
             @ map (\<lambda>l. Suggestion (prefix rb @ get_name l) Unknown)
                 (filter (\<lambda>l. \<not> (matches_id_digits (get_name l) \<or> get_name l = ''_id''))
                    (locations templ)))\<rparr>)"
    by (rule add_template_exact)
next
  assume h: "navigate_xpath svc (xpath req) (offset req) = Inr decls
        \<and> find_last_of (identifier' req) CHR ''.'' = Some off
        \<and> find_declaration svc decls (take off (identifier' req)) = Some (EntitySymbol inst)
        \<and> is_template inst \<and> xpath req = ''/nta/queries!''
        \<and> find_process svc (get_name inst) = Some templ"
  then have x: "xpath req = ''/nta/queries!''"
    by simp
  then have c: "configure_mask (xpath req) ResultBuilder_init = ResultBuilder_init"
    by (simp only: exact_paths_unfiltered)
  have "visit_entity svc True (EntitySymbol inst)
          (set_prefix (take (Suc off) (identifier' req)) ResultBuilder_init)
        = add_template templ (set_prefix (take (Suc off) (identifier' req)) ResultBuilder_init)"
    using h by (simp add: visit_entity_def)
  with h c x show "autocomplete svc req =
            Inr (map (\<lambda>v. Suggestion (take (Suc off) (identifier' req) @ get_name v) Variable)
                   (variables templ)
                 @ map (\<lambda>f. Suggestion (take (Suc off) (identifier' req) @ get_name f) Function)
                     (functions' templ)
                 @ map (\<lambda>l. Suggestion (take (Suc off) (identifier' req) @ get_name l) Unknown)
                     (filter (\<lambda>l. \<not> (matches_id_digits (get_name l) \<or> get_name l = ''_id''))
                        (locations templ)))"
    by (simp add: autocomplete_def Let_def substr_def add_template_exact set_prefix_def
        ResultBuilder_init_def get_items_def filter_type_check_0)
next
  assume h: "navigate_xpath svc (xpath req') (offset req') = Inr decls'
        \<and> find_last_of (identifier' req') CHR ''.'' = None
        \<and> autocomplete svc req' = Inr its'
        \<and> (symb, rng) \<in> set (walk svc decls')
        \<and> (get_frame symb \<noteq> frame decls' \<or> begOffset rng < offset req')
        \<and> \<not> is_template symb \<and> sym_type (get_type symb) = Inr ty
        \<and> type_filter_mask (configure_mask (xpath req') ResultBuilder_init) AND sym_bits ty = 0"
  then obtain rb' where v: "visit_symbols (walk svc decls')
            (visit_callback req' decls' (xpath req' = ''/nta/queries!'' \<or> xpath req' = ''/nta/system!''))
            (add_defaults (xpath req') (configure_mask (xpath req') ResultBuilder_init)) = Inr rb'"
    and i: "its' = items rb'"
    using plain_request_walk [of svc req' decls' its'] by blast
  from h have "type_filter_mask
       (add_defaults (xpath req') (configure_mask (xpath req') ResultBuilder_init))
       AND sym_bits ty = 0"
    by (simp only: add_defaults_same_mask)
  from visit_symbols_returns [OF v _ _ _ this, of symb rng] h i
  show "Suggestion (get_name symb) ty \<in> set its'"
    by blast
qed

theorem generated_locations_skipped_witness:
  "matches_id_digits ''_id0''
   \<and> add_template example_template (set_prefix ''P.'' ResultBuilder_init)
       = add_template
           (example_template\<lparr>locations :=
              [symbol_t ''Idle'' (type_t (OTHER_KIND 5) [] [] []) 1,
               symbol_t ''_id'' (type_t (OTHER_KIND 5) [] [] []) 1]\<rparr>)
           (set_prefix ''P.'' ResultBuilder_init)
   \<and> autocomplete example_service
        \<lparr>xpath = ''/nta/queries!'', offset = 0, identifier' = ''P.''\<rparr>
       = Inr [Suggestion ''P.y'' Variable, Suggestion ''P._id0'' Variable,
              Suggestion ''P.g'' Function, Suggestion ''P.Idle'' Unknown]
   \<and> \<not> matches_id_digits ''Idle''
   \<and> matches_id_digits ''_id7''
   \<and> autocomplete example_service
        \<lparr>xpath = ''/nta/declaration'', offset = 55, identifier' = []\<rparr>
       = Inr (default_items @ builtin_functions
              @ [Suggestion ''x'' Variable, Suggestion ''c'' Channel, Suggestion ''T'' Type,
                 Suggestion ''f'' Function, Suggestion ''_id7'' Variable])
   \<and> Suggestion ''_id7'' Variable
       \<in> set (default_items @ builtin_functions
              @ [Suggestion ''x'' Variable, Suggestion ''c'' Channel, Suggestion ''T'' Type,
                 Suggestion ''f'' Function, Suggestion ''_id7'' Variable])"
proof -
  let ?req = "\<lparr>xpath = ''/nta/queries!'', offset = 0, identifier' = ''P.''\<rparr>"
  let ?req' = "\<lparr>xpath = ''/nta/declaration'', offset = 55, identifier' = []\<rparr>"
  let ?its = "[Suggestion ''P.y'' Variable, Suggestion ''P._id0'' Variable,
              Suggestion ''P.g'' Function, Suggestion ''P.Idle'' Unknown]"
  let ?its' = "default_items @ builtin_functions
              @ [Suggestion ''x'' Variable, Suggestion ''c'' Channel, Suggestion ''T'' Type,
                 Suggestion ''f'' Function, Suggestion ''_id7'' Variable]"
  let ?loc = "symbol_t ''_id0'' (type_t (OTHER_KIND 5) [] [] []) 1"
  let ?after = "[symbol_t ''Idle'' (type_t (OTHER_KIND 5) [] [] []) 1,
           symbol_t ''_id'' (type_t (OTHER_KIND 5) [] [] []) 1]"
  let ?P = "symbol_t ''P'' (type_t INSTANCE [INSTANCE] [] []) 0"
  let ?arr = "symbol_t ''_id7''
      (type_t (OTHER_KIND 3) [] [IS_ARRAY] [([], int_type), ([], int_type)]) 0"
  let ?rng = "\<lparr>begOffset = 50, endOffset = 54\<rparr>"
  note T = generated_locations_skipped [where loc = ?loc and templ = example_template
      and before = "[]" and after = ?after and rb = "set_prefix ''P.'' ResultBuilder_init"
      and req = ?req and off = 1 and svc = example_service and its = ?its
      and decls = "\<lparr>frame = 0\<rparr>" and inst = ?P
      and req' = ?req' and decls' = "\<lparr>frame = 0\<rparr>" and its' = ?its' and symb = ?arr
      and rng = ?rng and ty = Variable]
  have m: "matches_id_digits (get_name ?loc)"
    by (simp add: matches_id_digits_def is_digit_def)
  have t: "example_template\<lparr>locations := [] @ ?loc # ?after\<rparr> = example_template"
    by (simp add: example_template_def)
  from T have "matches_id_digits (get_name ?loc) \<longrightarrow>
      add_template (example_template\<lparr>locations := [] @ ?loc # ?after\<rparr>)
          (set_prefix ''P.'' ResultBuilder_init)
        = add_template (example_template\<lparr>locations := [] @ ?after\<rparr>)
            (set_prefix ''P.'' ResultBuilder_init)"
    by (rule conjunct1)
  with m t have skip: "add_template example_template (set_prefix ''P.'' ResultBuilder_init)
        = add_template (example_template\<lparr>locations := ?after\<rparr>)
            (set_prefix ''P.'' ResultBuilder_init)"
    by simp
  have members: "navigate_xpath example_service (xpath ?req) (offset ?req) = Inr \<lparr>frame = 0\<rparr>
        \<and> find_last_of (identifier' ?req) CHR ''.'' = Some 1
        \<and> find_declaration example_service \<lparr>frame = 0\<rparr> (take 1 (identifier' ?req))
            = Some (EntitySymbol ?P)
        \<and> is_template ?P \<and> xpath ?req = ''/nta/queries!''
        \<and> find_process example_service (get_name ?P) = Some example_template"
    by (simp add: example_service_def is_template_def is_kind_def)
  from T [THEN conjunct2, THEN conjunct2, THEN conjunct2, THEN conjunct1, THEN mp, OF members]
  have a: "autocomplete example_service ?req = Inr ?its"
    by (simp add: example_template_def matches_id_digits_def is_digit_def)
  have a': "autocomplete example_service ?req' = Inr ?its'"
    by (simp add: autocomplete_steps example_defs)
  have walked: "navigate_xpath example_service (xpath ?req') (offset ?req') = Inr \<lparr>frame = 0\<rparr>
        \<and> find_last_of (identifier' ?req') CHR ''.'' = None
        \<and> autocomplete example_service ?req' = Inr ?its'
        \<and> (?arr, ?rng) \<in> set (walk example_service \<lparr>frame = 0\<rparr>)
        \<and> (get_frame ?arr \<noteq> frame \<lparr>frame = 0\<rparr> \<or> begOffset ?rng < offset ?req')
        \<and> \<not> is_template ?arr \<and> sym_type (get_type ?arr) = Inr Variable
        \<and> type_filter_mask (configure_mask (xpath ?req') ResultBuilder_init)
            AND sym_bits Variable = 0"
    using a'
    by (simp add: example_defs is_template_def sym_type.simps type_preds get_def size_t_def
        configure_mask_def ends_with_def label_kind_def ResultBuilder_init_def)
  from T [THEN conjunct2, THEN conjunct2, THEN conjunct2, THEN conjunct2, THEN mp, OF walked]
  have r: "Suggestion ''_id7'' Variable \<in> set ?its'"
    by simp
  have "\<not> matches_id_digits ''Idle''" and "matches_id_digits ''_id7''"
    by (simp_all add: matches_id_digits_def is_digit_def)
  with m skip a a' r show ?thesis
    by simp
qed

text \<open>
  C7, as stated, fails: a declared array named \<^verbatim>\<open>_id7\<close> is returned under its name, which
  matches the pattern.
\<close>

theorem generated_names_counterexample:
  "matches_id_digits ''_id7''
   \<and> autocomplete example_service
        \<lparr>xpath = ''/nta/declaration'', offset = 100, identifier' = []\<rparr>
       = Inr (default_items @ builtin_functions
              @ [Suggestion ''x'' Variable, Suggestion ''c'' Channel, Suggestion ''T'' Type,
                 Suggestion ''f'' Function, Suggestion ''_id7'' Variable])"
  by (simp add: matches_id_digits_def autocomplete_steps example_defs)

section \<open>Visibility in the walk\<close>

text \<open>
  C4, as amended.  In the walk of a request without a dot, a symbol of the frame of the
  located declarations block that begins at or after the offset of the request adds
  nothing: the result of the command is the same when these symbols are left out of the
  walk.  A visited symbol of another frame is returned whatever its range and the offset
  are, as far as the kind mask and the template gate let it: when it is not a template
  instance its type has a kind, and the symbol is returned with that kind if and only if
  the mask of the request admits the kind; when it is a template instance it is returned
  as a process if and only if the xpath is exactly \<^verbatim>\<open>/nta/queries!\<close> or \<^verbatim>\<open>/nta/system!\<close>.
\<close>

theorem forward_reference_exclusion:
  assumes n: "navigate_xpath svc (xpath req) (offset req) = Inr decls"
    and d: "find_last_of (identifier' req) CHR ''.'' = None"
    and a: "autocomplete svc req = Inr its"
  shows "(get_frame symb = frame decls \<and> offset req \<le> begOffset rng \<longrightarrow>
      visit_callback req decls use_templates symb rng rb = Inr (False, rb))
   \<and> autocomplete svc req =
       autocomplete
         (svc\<lparr>walk := \<lambda>d. filter (\<lambda>(sy, r). get_frame sy \<noteq> frame d \<or> begOffset r < offset req)
                              (walk svc d)\<rparr>) req
   \<and> ((symb, rng) \<in> set (walk svc decls) \<and> get_frame symb \<noteq> frame decls
        \<and> \<not> is_template symb \<longrightarrow>
        (\<exists>ty. sym_type (get_type symb) = Inr ty
           \<and> (Suggestion (get_name symb) ty \<in> set its)
              = (type_filter_mask (configure_mask (xpath req) ResultBuilder_init)
                   AND sym_bits ty = 0)))
   \<and> ((symb, rng) \<in> set (walk svc decls) \<and> get_frame symb \<noteq> frame decls
        \<and> is_template symb \<longrightarrow>
        (Suggestion (get_name symb) Process \<in> set its)
          = (xpath req = ''/nta/queries!'' \<or> xpath req = ''/nta/system!''))"
proof -
  let ?ut = "xpath req = ''/nta/queries!'' \<or> xpath req = ''/nta/system!''"
  let ?m = "type_filter_mask (configure_mask (xpath req) ResultBuilder_init)"
  let ?rb = "add_defaults (xpath req) (configure_mask (xpath req) ResultBuilder_init)"
  from plain_request_walk [OF n d a] obtain rb'
    where v: "visit_symbols (walk svc decls) (visit_callback req decls ?ut) ?rb = Inr rb'"
      and i: "its = items rb'"
    by blast
  have passes: "?m AND sym_bits (type s) = 0 \<and> (type s = Process \<longrightarrow> ?ut)" if "s \<in> set its" for s
    using autocomplete_plain [OF d a] that by (simp add: list_all_iff type_check_def)
  have hidden: "visit_callback req decls use_templates symb rng rb = Inr (False, rb)"
    if "get_frame symb = frame decls \<and> offset req \<le> begOffset rng"
    using that by (simp add: visit_callback_hidden)
  have same: "autocomplete svc req =
       autocomplete
         (svc\<lparr>walk := \<lambda>d. filter (\<lambda>(sy, r). get_frame sy \<noteq> frame d \<or> begOffset r < offset req)
                              (walk svc d)\<rparr>) req"
    by (simp add: autocomplete_def Let_def visit_symbols_visible visit_entity_walk
        del: disj_not1 split: sum.splits option.splits)
  have plain: "\<exists>ty. sym_type (get_type symb) = Inr ty
           \<and> (Suggestion (get_name symb) ty \<in> set its) = (?m AND sym_bits ty = 0)"
    if w: "(symb, rng) \<in> set (walk svc decls)" and f: "get_frame symb \<noteq> frame decls"
      and t: "\<not> is_template symb"
  proof -
    from f have vis: "get_frame symb \<noteq> frame decls \<or> begOffset rng < offset req"
      by simp
    from visit_symbols_classified [OF v w vis t] obtain ty
      where ty: "sym_type (get_type symb) = Inr ty"
      by blast
    have "Suggestion (get_name symb) ty \<in> set its" if "?m AND sym_bits ty = 0"
    proof -
      from that have "type_filter_mask ?rb AND sym_bits ty = 0"
        by (simp only: add_defaults_same_mask)
      from visit_symbols_returns [OF v w vis _ this] t ty i show ?thesis
        by blast
    qed
    moreover have "?m AND sym_bits ty = 0" if "Suggestion (get_name symb) ty \<in> set its"
      using passes [OF that] by simp
    ultimately have "(Suggestion (get_name symb) ty \<in> set its) = (?m AND sym_bits ty = 0)"
      by blast
    with ty show ?thesis
      by blast
  qed
  have process: "(Suggestion (get_name symb) Process \<in> set its) = ?ut"
    if w: "(symb, rng) \<in> set (walk svc decls)" and f: "get_frame symb \<noteq> frame decls"
      and t: "is_template symb"
  proof
    assume "Suggestion (get_name symb) Process \<in> set its"
    from passes [OF this] show ?ut
      by simp
  next
    assume ut: ?ut
    from f have vis: "get_frame symb \<noteq> frame decls \<or> begOffset rng < offset req"
      by simp
    from ut have "type_filter_mask ?rb = 0"
      by (rule exact_paths_mask)
    then have "type_filter_mask ?rb AND sym_bits Process = 0"
      by simp
    from visit_symbols_returns [OF v w vis _ this] t ut i
    show "Suggestion (get_name symb) Process \<in> set its"
      by blast
  qed
  show ?thesis
  proof (intro conjI impI)
    assume "get_frame symb = frame decls \<and> offset req \<le> begOffset rng"
    then show "visit_callback req decls use_templates symb rng rb = Inr (False, rb)"
      by (rule hidden)
  next
    show "autocomplete svc req =
       autocomplete
         (svc\<lparr>walk := \<lambda>d. filter (\<lambda>(sy, r). get_frame sy \<noteq> frame d \<or> begOffset r < offset req)
                              (walk svc d)\<rparr>) req"
      by (rule same)
  next
    assume "(symb, rng) \<in> set (walk svc decls) \<and> get_frame symb \<noteq> frame decls
        \<and> \<not> is_template symb"
    then show "\<exists>ty. sym_type (get_type symb) = Inr ty
           \<and> (Suggestion (get_name symb) ty \<in> set its) = (?m AND sym_bits ty = 0)"
      by (intro plain) simp_all
  next
    assume "(symb, rng) \<in> set (walk svc decls) \<and> get_frame symb \<noteq> frame decls
        \<and> is_template symb"
    then show "(Suggestion (get_name symb) Process \<in> set its) = ?ut"
      by (intro process) simp_all
  qed
qed

theorem forward_reference_exclusion_witness:
  "autocomplete example_service
        \<lparr>xpath = ''/nta/template[1]/declaration'', offset = 5, identifier' = []\<rparr>
       = Inr (default_items @ builtin_functions
              @ [Suggestion ''y'' Variable, Suggestion ''x'' Variable, Suggestion ''c'' Channel,
                 Suggestion ''T'' Type, Suggestion ''f'' Function, Suggestion ''_id7'' Variable])
   \<and> visit_callback \<lparr>xpath = ''/nta/template[1]/declaration'', offset = 5, identifier' = []\<rparr>
        \<lparr>frame = 1\<rparr> False (symbol_t ''z'' int_type 1) \<lparr>begOffset = 11, endOffset = 12\<rparr>
        ResultBuilder_init = Inr (False, ResultBuilder_init)
   \<and> Suggestion ''x'' Variable
       \<in> set (default_items @ builtin_functions
              @ [Suggestion ''y'' Variable, Suggestion ''x'' Variable, Suggestion ''c'' Channel,
                 Suggestion ''T'' Type, Suggestion ''f'' Function, Suggestion ''_id7'' Variable])
   \<and> Suggestion ''P'' Process
       \<notin> set (default_items @ builtin_functions
              @ [Suggestion ''y'' Variable, Suggestion ''x'' Variable, Suggestion ''c'' Channel,
                 Suggestion ''T'' Type, Suggestion ''f'' Function, Suggestion ''_id7'' Variable])"
proof -
  let ?req = "\<lparr>xpath = ''/nta/template[1]/declaration'', offset = 5, identifier' = []\<rparr>"
  let ?its = "default_items @ builtin_functions
              @ [Suggestion ''y'' Variable, Suggestion ''x'' Variable, Suggestion ''c'' Channel,
                 Suggestion ''T'' Type, Suggestion ''f'' Function, Suggestion ''_id7'' Variable]"
  let ?z = "symbol_t ''z'' int_type 1"
  let ?x = "symbol_t ''x'' int_type 0"
  let ?P = "symbol_t ''P'' (type_t INSTANCE [INSTANCE] [] []) 0"
  have n: "navigate_xpath example_service (xpath ?req) (offset ?req) = Inr \<lparr>frame = 1\<rparr>"
    by (simp add: example_service_def)
  have d: "find_last_of (identifier' ?req) CHR ''.'' = None"
    by simp
  have a: "autocomplete example_service ?req = Inr ?its"
    by (simp add: autocomplete_steps example_defs)
  note T = forward_reference_exclusion [OF n d a]
  have "get_frame ?z = frame \<lparr>frame = 1\<rparr> \<and> offset ?req \<le> begOffset \<lparr>begOffset = 11, endOffset = 12\<rparr>"
    by simp
  from T [where symb = ?z and rng = "\<lparr>begOffset = 11, endOffset = 12\<rparr>"
      and use_templates = False and rb = ResultBuilder_init, THEN conjunct1, THEN mp, OF this]
  have z: "visit_callback ?req \<lparr>frame = 1\<rparr> False ?z \<lparr>begOffset = 11, endOffset = 12\<rparr>
        ResultBuilder_init = Inr (False, ResultBuilder_init)" .
  have "(?x, \<lparr>begOffset = 4, endOffset = 5\<rparr>) \<in> set (walk example_service \<lparr>frame = 1\<rparr>)
      \<and> get_frame ?x \<noteq> frame \<lparr>frame = 1\<rparr> \<and> \<not> is_template ?x"
    by (simp add: example_defs is_template_def is_kind_def)
  from T [where symb = ?x and rng = "\<lparr>begOffset = 4, endOffset = 5\<rparr>",
      THEN conjunct2, THEN conjunct2, THEN conjunct1, THEN mp, OF this]
  obtain ty where "sym_type (get_type ?x) = Inr ty"
    and "(Suggestion (get_name ?x) ty \<in> set ?its)
         = (type_filter_mask (configure_mask (xpath ?req) ResultBuilder_init) AND sym_bits ty = 0)"
    by blast
  moreover have "sym_type (get_type ?x) = Inr Variable"
    by (simp add: sym_type.simps type_preds int_type_def)
  moreover have "type_filter_mask (configure_mask (xpath ?req) ResultBuilder_init) = 0"
    by (simp add: configure_mask_def ends_with_def label_kind_def ResultBuilder_init_def)
  ultimately have x: "Suggestion ''x'' Variable \<in> set ?its"
    by simp
  have "(?P, \<lparr>begOffset = 60, endOffset = 61\<rparr>) \<in> set (walk example_service \<lparr>frame = 1\<rparr>)
      \<and> get_frame ?P \<noteq> frame \<lparr>frame = 1\<rparr> \<and> is_template ?P"
    by (simp add: example_defs is_template_def is_kind_def)
  from T [where symb = ?P and rng = "\<lparr>begOffset = 60, endOffset = 61\<rparr>",
      THEN conjunct2, THEN conjunct2, THEN conjunct2, THEN mp, OF this]
  have p: "Suggestion ''P'' Process \<notin> set ?its"
    by simp
  from a z x p show ?thesis
    by (intro conjI)
qed

text \<open>
  C4, as stated, fails: from the block of a template (frame 1) the walk visits the process
  \<^verbatim>\<open>P\<close> of the enclosing global frame, and \<^verbatim>\<open>P\<close> is not returned, the xpath being neither
  that of the queries nor that of the system; and under a synchronisation label the
  variable \<^verbatim>\<open>x\<close> of the enclosing global frame is not returned, its kind being ignored there.
\<close>

theorem forward_reference_counterexample:
  "navigate_xpath example_service ''/nta/template[1]/declaration'' 100 = Inr \<lparr>frame = 1\<rparr>
   \<and> (symbol_t ''P'' (type_t INSTANCE [INSTANCE] [] []) 0, \<lparr>begOffset = 60, endOffset = 61\<rparr>)
       \<in> set (walk example_service \<lparr>frame = 1\<rparr>)
   \<and> autocomplete example_service
        \<lparr>xpath = ''/nta/template[1]/declaration'', offset = 100, identifier' = []\<rparr>
       = Inr (default_items @ builtin_functions
              @ [Suggestion ''y'' Variable, Suggestion ''z'' Variable, Suggestion ''x'' Variable,
                 Suggestion ''c'' Channel, Suggestion ''T'' Type, Suggestion ''f'' Function,
                 Suggestion ''_id7'' Variable])
   \<and> (symbol_t ''x'' int_type 0, \<lparr>begOffset = 4, endOffset = 5\<rparr>)
       \<in> set (walk example_service \<lparr>frame = 1\<rparr>)
   \<and> autocomplete example_service
        \<lparr>xpath = ''/nta/template[1]/transition[2]/'' @ label_kind ''synchronisation'',
         offset = 3, identifier' = []\<rparr>
       = Inr [Suggestion ''c'' Channel]"
proof -
  have "navigate_xpath example_service ''/nta/template[1]/declaration'' 100 = Inr \<lparr>frame = 1\<rparr>"
    by (simp add: example_service_def)
  moreover have "(symbol_t ''P'' (type_t INSTANCE [INSTANCE] [] []) 0,
        \<lparr>begOffset = 60, endOffset = 61\<rparr>) \<in> set (walk example_service \<lparr>frame = 1\<rparr>)"
    by (simp add: example_defs)
  moreover have "autocomplete example_service
        \<lparr>xpath = ''/nta/template[1]/declaration'', offset = 100, identifier' = []\<rparr>
       = Inr (default_items @ builtin_functions
              @ [Suggestion ''y'' Variable, Suggestion ''z'' Variable, Suggestion ''x'' Variable,
                 Suggestion ''c'' Channel, Suggestion ''T'' Type, Suggestion ''f'' Function,
                 Suggestion ''_id7'' Variable])"
    by (simp add: autocomplete_steps example_defs)
  moreover have "(symbol_t ''x'' int_type 0, \<lparr>begOffset = 4, endOffset = 5\<rparr>)
       \<in> set (walk example_service \<lparr>frame = 1\<rparr>)"
    by (simp add: example_defs)
  moreover have "autocomplete example_service
        \<lparr>xpath = ''/nta/template[1]/transition[2]/'' @ label_kind ''synchronisation'',
         offset = 3, identifier' = []\<rparr>
       = Inr [Suggestion ''c'' Channel]"
    by (simp add: autocomplete_eval example_defs)
  ultimately show ?thesis
    by (intro conjI)
qed

section \<open>Template instances in the walk\<close>

lemma visit_symbols_emits:
  assumes "visit_symbols ws (visit_callback req decls True) rb = Inr rb'"
    and "(symb, rng) \<in> set ws"
    and "is_template symb"
    and "get_frame symb \<noteq> frame decls \<or> begOffset rng < offset req"
    and "type_filter_mask rb = 0"
  shows "Suggestion (get_name symb) Process \<in> set (items rb')"
  using assms(1, 2, 5)
proof (induction ws arbitrary: rb)
  case Nil
  then show ?case by simp
next
  case (Cons w ws)
  obtain sy r where w: "w = (sy, r)" by (cases w)
  from Cons.prems(1) w obtain b rb1
    where c: "visit_callback req decls True sy r rb = Inr (b, rb1)"
      and v: "(if b then Inr rb1 else visit_symbols ws (visit_callback req decls True) rb1) = Inr rb'"
    by (auto split: sum.splits)
  from visit_callback_grows [OF c, of "\<lambda>s. True"] have b: "\<not> b" and g1: "grows (\<lambda>s. True) rb rb1"
    by auto
  from v b have v': "visit_symbols ws (visit_callback req decls True) rb1 = Inr rb'"
    by simp
  from g1 Cons.prems(3) have m: "type_filter_mask rb1 = 0"
    by (simp add: grows_mask)
  show ?case
  proof (cases "(symb, rng) \<in> set ws")
    case True
    from Cons.IH [OF v' True m] show ?thesis .
  next
    case False
    with Cons.prems(2) w have "sy = symb" and "r = rng"
      by auto
    with c assms(3, 4) Cons.prems(3) have "Suggestion (get_name symb) Process \<in> set (items rb1)"
      by (auto simp: visit_callback_def add_item_def)
    moreover from visit_symbols_grows [OF v', of "\<lambda>s. True"] have "set (items rb1) \<subseteq> set (items rb')"
      by (simp add: grows_items)
    ultimately show ?thesis
      by blast
  qed
qed

lemma visit_symbols_no_templates:
  "visit_symbols (filter (\<lambda>(sy, r). \<not> is_template sy) ws) (visit_callback req decls False) rb
   = visit_symbols ws (visit_callback req decls False) rb"
proof (induction ws arbitrary: rb)
  case Nil
  show ?case by simp
next
  case (Cons w ws)
  obtain symb rng where w: "w = (symb, rng)" by (cases w)
  show ?case
  proof (cases "is_template symb")
    case True
    then have "visit_callback req decls False symb rng rb = Inr (False, rb)"
      by (simp add: visit_callback_def)
    with w True Cons show ?thesis
      by simp
  next
    case False
    with w Cons show ?thesis
      by (simp split: sum.splits)
  qed
qed

text \<open>
  C3, as amended.  A template instance that the walk of a request without a dot visits and
  that is visible there (it is of another frame than the located block, or begins before the
  offset) is returned with kind process if and only if the xpath is exactly
  \<^verbatim>\<open>/nta/queries!\<close> or exactly \<^verbatim>\<open>/nta/system!\<close>.  No request under another xpath returns a
  suggestion of kind process, and under another xpath the template instances of the walk
  add nothing under any kind: the result is the same when they are left out of the walk.
\<close>

theorem template_gating:
  assumes "autocomplete svc req = Inr its"
  shows "(navigate_xpath svc (xpath req) (offset req) = Inr decls
          \<and> find_last_of (identifier' req) CHR ''.'' = None
          \<and> (symb, rng) \<in> set (walk svc decls) \<and> is_template symb
          \<and> (get_frame symb \<noteq> frame decls \<or> begOffset rng < offset req)
          \<longrightarrow> (Suggestion (get_name symb) Process \<in> set its)
               = (xpath req = ''/nta/queries!'' \<or> xpath req = ''/nta/system!''))
    \<and> ((\<exists>s \<in> set its. type s = Process) \<longrightarrow>
          xpath req = ''/nta/queries!'' \<or> xpath req = ''/nta/system!'')
    \<and> (xpath req \<noteq> ''/nta/queries!'' \<and> xpath req \<noteq> ''/nta/system!'' \<longrightarrow>
          autocomplete svc req =
            autocomplete (svc\<lparr>walk := \<lambda>d. filter (\<lambda>(sy, r). \<not> is_template sy) (walk svc d)\<rparr>) req)"
proof -
  let ?ut = "xpath req = ''/nta/queries!'' \<or> xpath req = ''/nta/system!''"
  have only: "?ut" if "s \<in> set its" and "type s = Process" for s
  proof (cases "find_last_of (identifier' req) CHR ''.''")
    case None
    from autocomplete_plain [OF None assms] that show ?thesis
      by (auto simp: list_all_iff)
  next
    case (Some off)
    from autocomplete_dotted [OF Some assms, of "\<lambda>s. type s \<noteq> Process"] that show ?thesis
      by (auto simp: list_all_iff)
  qed
  have emitted: "Suggestion (get_name symb) Process \<in> set its"
    if n: "navigate_xpath svc (xpath req) (offset req) = Inr decls"
      and d: "find_last_of (identifier' req) CHR ''.'' = None"
      and w: "(symb, rng) \<in> set (walk svc decls)" and t: "is_template symb"
      and vis: "get_frame symb \<noteq> frame decls \<or> begOffset rng < offset req"
      and ut: ?ut
  proof -
    let ?rb = "add_defaults (xpath req) (configure_mask (xpath req) ResultBuilder_init)"
    from assms n d ut obtain rb'
      where v: "visit_symbols (walk svc decls) (visit_callback req decls True) ?rb = Inr rb'"
        and i: "its = items rb'"
      by (auto simp: autocomplete_def Let_def get_items_def split: sum.splits)
    from ut have "type_filter_mask ?rb = 0"
      by (rule exact_paths_mask)
    from visit_symbols_emits [OF v w t vis this] i show ?thesis
      by simp
  qed
  have gate: "(Suggestion (get_name symb) Process \<in> set its) = ?ut"
    if "navigate_xpath svc (xpath req) (offset req) = Inr decls"
      and "find_last_of (identifier' req) CHR ''.'' = None"
      and "(symb, rng) \<in> set (walk svc decls)" and "is_template symb"
      and "get_frame symb \<noteq> frame decls \<or> begOffset rng < offset req"
  proof
    assume "Suggestion (get_name symb) Process \<in> set its"
    from only [OF this] show ?ut by simp
  next
    assume ?ut
    with that show "Suggestion (get_name symb) Process \<in> set its"
      by (rule emitted)
  qed
  have others: "autocomplete svc req =
      autocomplete (svc\<lparr>walk := \<lambda>d. filter (\<lambda>(sy, r). \<not> is_template sy) (walk svc d)\<rparr>) req"
    if "\<not> ?ut"
    using that
    by (simp add: autocomplete_def Let_def visit_symbols_no_templates visit_entity_walk
        split: sum.splits option.splits)
  show ?thesis
  proof (intro conjI impI)
    assume "navigate_xpath svc (xpath req) (offset req) = Inr decls
          \<and> find_last_of (identifier' req) CHR ''.'' = None
          \<and> (symb, rng) \<in> set (walk svc decls) \<and> is_template symb
          \<and> (get_frame symb \<noteq> frame decls \<or> begOffset rng < offset req)"
    then show "(Suggestion (get_name symb) Process \<in> set its) = ?ut"
      by (intro gate) simp_all
  next
    assume "\<exists>s \<in> set its. type s = Process"
    then obtain s where "s \<in> set its" and "type s = Process"
      by (rule bexE)
    then show ?ut
      by (rule only)
  next
    assume "xpath req \<noteq> ''/nta/queries!'' \<and> xpath req \<noteq> ''/nta/system!''"
    then have "\<not> ?ut"
      by blast
    then show "autocomplete svc req =
      autocomplete (svc\<lparr>walk := \<lambda>d. filter (\<lambda>(sy, r). \<not> is_template sy) (walk svc d)\<rparr>) req"
      by (rule others)
  qed
qed

theorem template_gating_witness:
  "navigate_xpath example_service ''/nta/system!'' 100 = Inr \<lparr>frame = 0\<rparr>
   \<and> autocomplete example_service \<lparr>xpath = ''/nta/system!'', offset = 100, identifier' = []\<rparr>
       = Inr (default_items @ builtin_functions
              @ [Suggestion ''x'' Variable, Suggestion ''c'' Channel, Suggestion ''T'' Type,
                 Suggestion ''f'' Function, Suggestion ''_id7'' Variable,
                 Suggestion ''P'' Process])
   \<and> Suggestion ''P'' Process
       \<in> set (default_items @ builtin_functions
              @ [Suggestion ''x'' Variable, Suggestion ''c'' Channel, Suggestion ''T'' Type,
                 Suggestion ''f'' Function, Suggestion ''_id7'' Variable,
                 Suggestion ''P'' Process])"
proof -
  let ?req = "\<lparr>xpath = ''/nta/system!'', offset = 100, identifier' = []\<rparr>"
  let ?its = "default_items @ builtin_functions
              @ [Suggestion ''x'' Variable, Suggestion ''c'' Channel, Suggestion ''T'' Type,
                 Suggestion ''f'' Function, Suggestion ''_id7'' Variable,
                 Suggestion ''P'' Process]"
  let ?P = "symbol_t ''P'' (type_t INSTANCE [INSTANCE] [] []) 0"
  let ?rng = "\<lparr>begOffset = 60, endOffset = 61\<rparr>"
  have a: "autocomplete example_service ?req = Inr ?its"
    by (simp add: autocomplete_steps example_defs)
  have n: "navigate_xpath example_service (xpath ?req) (offset ?req) = Inr \<lparr>frame = 0\<rparr>"
    by (simp add: example_service_def)
  have d: "find_last_of (identifier' ?req) CHR ''.'' = None"
    by simp
  have w: "(?P, ?rng) \<in> set (walk example_service \<lparr>frame = 0\<rparr>)"
    by (simp add: example_defs)
  have t: "is_template ?P"
    by (simp add: is_template_def is_kind_def)
  have vis: "get_frame ?P \<noteq> frame \<lparr>frame = 0\<rparr> \<or> begOffset ?rng < offset ?req"
    by simp
  from template_gating [OF a, where decls = "\<lparr>frame = 0\<rparr>" and symb = ?P and rng = ?rng]
    n d w t vis
  have "Suggestion (get_name ?P) Process \<in> set ?its"
    by simp
  with a n show ?thesis
    by simp
qed

text \<open>
  C3, as stated, fails: under \<^verbatim>\<open>/nta/system!\<close> the process \<^verbatim>\<open>P\<close>, declared in the located frame
  at offset 60, is not returned for a request at offset 0, nor for a request with the dotted
  identifier \<^verbatim>\<open>P.\<close>.
\<close>

theorem template_gating_counterexample:
  "navigate_xpath example_service ''/nta/system!'' 0 = Inr \<lparr>frame = 0\<rparr>
   \<and> (symbol_t ''P'' (type_t INSTANCE [INSTANCE] [] []) 0, \<lparr>begOffset = 60, endOffset = 61\<rparr>)
       \<in> set (walk example_service \<lparr>frame = 0\<rparr>)
   \<and> is_template (symbol_t ''P'' (type_t INSTANCE [INSTANCE] [] []) 0)
   \<and> autocomplete example_service \<lparr>xpath = ''/nta/system!'', offset = 0, identifier' = []\<rparr>
       = Inr (default_items @ builtin_functions)
   \<and> autocomplete example_service \<lparr>xpath = ''/nta/system!'', offset = 100, identifier' = ''P.''\<rparr>
       = Inr []"
  by (simp add: autocomplete_steps example_defs)

end
